theory Spec2Isabelle
  imports Complex_Main
begin

section \<open>Python values, errors and library functions\<close>

text \<open>
  The program is \<^verbatim>\<open>src/weight.py\<close>. Every exception the modelled code can raise is a
  value of \<open>py_error\<close>; a function that may raise returns \<open>py_error + 'a\<close>.
\<close>

datatype py_error =
  KeyError | ValueError | TypeError | IndexError | ZeroDivisionError | OverflowError
| FileNotFoundError

text \<open>Sequencing of calls that may raise: the first exception ends the computation.\<close>

definition bind_err :: "py_error + 'a \<Rightarrow> ('a \<Rightarrow> py_error + 'b) \<Rightarrow> py_error + 'b" where
  "bind_err m f = (case m of Inl e \<Rightarrow> Inl e | Inr x \<Rightarrow> f x)"

text \<open>
  The values of Python floats are rationals; infinities and NaN are left out. Where
  rounding changes only the value computed (the daily mean, the statistics), the model
  computes the exact value. Where it decides whether an exception is raised (the power
  and the divisions of \<^verbatim>\<open>calculate_bmi\<close>), the float operations are library
  functions, parameters of the model like the others.
\<close>

type_synonym pyfloat = rat

text \<open>A \<^verbatim>\<open>datetime\<close> at midnight: the calendar date.\<close>

record datetime =
  year :: nat
  month :: nat
  day :: nat

text \<open>
  The library functions whose result the program uses but which are not code of the
  repository are parameters of the model:
  \<^item> \<open>float_of\<close> is \<^verbatim>\<open>float(s)\<close> on a string, \<open>None\<close> where it raises ValueError;
  \<^item> \<open>strptime\<close> is \<^verbatim>\<open>datetime.strptime(s, '%Y.%m.%d')\<close>, \<open>None\<close> where it raises
    ValueError;
  \<^item> \<open>format_2f\<close> is the format specification \<^verbatim>\<open>:.2f\<close>;
  \<^item> \<open>spline\<close> is \<^verbatim>\<open>UnivariateSpline(x, y, s=s)(x)\<close>: the fit, evaluated at its own
    abscissae;
  \<^item> \<open>float_div\<close> is the value of \<^verbatim>\<open>a / b\<close> on floats, for a divisor other than
    zero: the quotient, rounded;
  \<^item> \<open>float_pow\<close> is \<^verbatim>\<open>a ** n\<close> on a float: the power, rounded (to zero when it
    underflows), \<open>None\<close> where it overflows and Python raises OverflowError.
\<close>

record pylib =
  float_of :: "string \<Rightarrow> pyfloat option"
  strptime :: "string \<Rightarrow> datetime option"
  format_2f :: "pyfloat \<Rightarrow> string"
  spline :: "int list \<Rightarrow> pyfloat list \<Rightarrow> pyfloat \<Rightarrow> py_error + pyfloat list"
  float_div :: "pyfloat \<Rightarrow> pyfloat \<Rightarrow> pyfloat"
  float_pow :: "pyfloat \<Rightarrow> nat \<Rightarrow> pyfloat option"

text \<open>\<^verbatim>\<open>a / b\<close> raises ZeroDivisionError exactly when \<open>b\<close> is zero; \<^verbatim>\<open>a ** n\<close> raises
  OverflowError when the power is too large for a float.\<close>

definition truediv :: "pylib \<Rightarrow> pyfloat \<Rightarrow> pyfloat \<Rightarrow> py_error + pyfloat" where
  "truediv L a b = (if b = 0 then Inl ZeroDivisionError else Inr (float_div L a b))"

definition pow_op :: "pylib \<Rightarrow> pyfloat \<Rightarrow> nat \<Rightarrow> py_error + pyfloat" where
  "pow_op L a n = (case float_pow L a n of None \<Rightarrow> Inl OverflowError | Some x \<Rightarrow> Inr x)"

subsection \<open>Strings\<close>

text \<open>\<^verbatim>\<open>str.strip()\<close>: the ASCII characters for which \<^verbatim>\<open>str.isspace\<close> holds are removed
  at both ends.\<close>

definition is_space :: "char \<Rightarrow> bool" where
  "is_space c \<longleftrightarrow>
     (let n = (of_char c :: nat) in (9 \<le> n \<and> n \<le> 13) \<or> (28 \<le> n \<and> n \<le> 32))"

definition strip :: "string \<Rightarrow> string" where
  "strip s = rev (dropWhile is_space (rev (dropWhile is_space s)))"

definition digit_char :: "nat \<Rightarrow> char" where
  "digit_char n = ''0123456789'' ! (n mod 10)"

text \<open>\<^verbatim>\<open>str(n)\<close> of a non-negative integer.\<close>

fun str_nat :: "nat \<Rightarrow> string" where
  "str_nat n = (if n < 10 then [digit_char n] else str_nat (n div 10) @ [digit_char n])"

declare str_nat.simps [simp del]

subsection \<open>The CSV file as \<^verbatim>\<open>csv.DictReader\<close> sees it\<close>

text \<open>
  A CSV file is the list of its records, each a list of fields: what \<^verbatim>\<open>csv.writer\<close>
  was given row by row, and what \<^verbatim>\<open>csv.reader\<close> yields. The value of a dict row at a
  key is \<open>None\<close> where the key is absent (indexing raises KeyError), \<open>Some None\<close> where
  it is Python's \<^verbatim>\<open>None\<close> (the \<^verbatim>\<open>restval\<close> of a short record) and \<open>Some (Some s)\<close>
  for a string.
\<close>

type_synonym csv_file = "string list list"
type_synonym row = "string \<rightharpoonup> string option"

definition dict_row :: "string list \<Rightarrow> string list \<Rightarrow> row" where
  "dict_row fieldnames rec =
     fold (\<lambda>(k, v) d. d(k \<mapsto> v))
       (zip fieldnames (map Some rec @ replicate (length fieldnames - length rec) None))
       Map.empty"

text \<open>The first record is the header; empty records are skipped.\<close>

definition dict_reader :: "csv_file \<Rightarrow> row list" where
  "dict_reader f =
     (case f of [] \<Rightarrow> []
      | fieldnames # recs \<Rightarrow> map (dict_row fieldnames) (filter (\<lambda>r. r \<noteq> []) recs))"

section \<open>The parser: \<^verbatim>\<open>read_weight_data\<close>\<close>

definition weight_key :: "nat \<Rightarrow> string" where
  "weight_key i = ''Weight'' @ str_nat i"

text \<open>
  The inner loop \<^verbatim>\<open>for i in range(1, 5)\<close>, with the list \<open>weights\<close> as accumulator.
  A cell that is \<^verbatim>\<open>None\<close>, empty or blank is passed over; a cell on which \<^verbatim>\<open>float\<close>
  raises ValueError is passed over by the \<^verbatim>\<open>except\<close> clause.
\<close>

fun collect_weights :: "pylib \<Rightarrow> row \<Rightarrow> nat list \<Rightarrow> pyfloat list \<Rightarrow> py_error + pyfloat list" where
  "collect_weights L r [] weights = Inr weights"
| "collect_weights L r (i # is) weights =
     (case r (weight_key i) of
        None \<Rightarrow> Inl KeyError
      | Some None \<Rightarrow> collect_weights L r is weights
      | Some (Some s) \<Rightarrow>
          if s \<noteq> [] \<and> strip s \<noteq> [] then
            (case float_of L s of
               Some x \<Rightarrow> collect_weights L r is (weights @ [x])
             | None \<Rightarrow> collect_weights L r is weights)
          else collect_weights L r is weights)"

text \<open>
  The outer loop \<^verbatim>\<open>for row in reader\<close>, with the two result lists as accumulators.
  \<^verbatim>\<open>row['Date']\<close> is read first; \<^verbatim>\<open>strptime\<close> is called only when the row has a
  weight, and raises TypeError on \<^verbatim>\<open>None\<close>.
\<close>

fun read_rows ::
  "pylib \<Rightarrow> row list \<Rightarrow> datetime list \<Rightarrow> pyfloat list \<Rightarrow> py_error + (datetime list \<times> pyfloat list)" where
  "read_rows L [] dates daily_weights = Inr (dates, daily_weights)"
| "read_rows L (r # rs) dates daily_weights =
     (case r ''Date'' of
        None \<Rightarrow> Inl KeyError
      | Some date_str \<Rightarrow>
          (case collect_weights L r [1..<5] [] of
             Inl e \<Rightarrow> Inl e
           | Inr weights \<Rightarrow>
               if weights \<noteq> [] then
                 (let avg_weight = sum_list weights / of_nat (length weights) in
                  case date_str of
                    None \<Rightarrow> Inl TypeError
                  | Some s \<Rightarrow>
                      (case strptime L s of
                         None \<Rightarrow> Inl ValueError
                       | Some d \<Rightarrow> read_rows L rs (dates @ [d]) (daily_weights @ [avg_weight])))
               else read_rows L rs dates daily_weights))"

text \<open>\<^verbatim>\<open>read_weight_data\<close> on the content of \<^verbatim>\<open>weight_data.csv\<close>, \<open>None\<close> when the file
  does not exist.\<close>

definition read_weight_data ::
  "pylib \<Rightarrow> csv_file option \<Rightarrow> py_error + (datetime list \<times> pyfloat list)" where
  "read_weight_data L file =
     (case file of
        None \<Rightarrow> Inl FileNotFoundError
      | Some f \<Rightarrow> read_rows L (dict_reader f) [] [])"

section \<open>Statistics, changes and BMI\<close>

text \<open>\<^verbatim>\<open>np.mean\<close> of a list, and \<^verbatim>\<open>np.max\<close>, \<^verbatim>\<open>np.min\<close> of a list given as its first
  element and the rest (the program calls them on a non-empty list only).\<close>

definition np_mean :: "pyfloat list \<Rightarrow> pyfloat" where
  "np_mean xs = sum_list xs / of_nat (length xs)"

definition np_max :: "pyfloat \<Rightarrow> pyfloat list \<Rightarrow> pyfloat" where
  "np_max x xs = fold max xs x"

definition np_min :: "pyfloat \<Rightarrow> pyfloat list \<Rightarrow> pyfloat" where
  "np_min x xs = fold min xs x"

text \<open>The result is the triple the source returns, \<open>None\<close> for Python's \<^verbatim>\<open>None\<close>.\<close>

fun calculate_statistics ::
  "pyfloat list \<Rightarrow> pyfloat option \<times> pyfloat option \<times> pyfloat option" where
  "calculate_statistics [] = (None, None, None)"
| "calculate_statistics (w # ws) =
     (let avg_weight = np_mean (w # ws);
          max_weight = np_max w ws;
          min_weight = np_min w ws
      in (Some avg_weight, Some max_weight, Some min_weight))"

text \<open>
  The loop \<^verbatim>\<open>for i in range(1, len(weights))\<close> with the list \<open>changes\<close> as
  accumulator. The function works on any Python numbers with a subtraction, so the model
  is polymorphic. Both indices are in range: \<open>1 \<le> i < len(weights)\<close>.
\<close>

fun changes_loop :: "'a::minus list \<Rightarrow> nat list \<Rightarrow> 'a list \<Rightarrow> 'a list" where
  "changes_loop weights [] changes = changes"
| "changes_loop weights (i # is) changes =
     (let change = weights ! i - weights ! (i - 1)
      in changes_loop weights is (changes @ [change]))"

definition calculate_weight_changes :: "'a::minus list \<Rightarrow> 'a list" where
  "calculate_weight_changes weights = changes_loop weights [1..<length weights] []"

text \<open>The three float operations in the order of the source: the division by 100, the
  square, the division of the weight.\<close>

definition calculate_bmi :: "pylib \<Rightarrow> pyfloat \<Rightarrow> pyfloat \<Rightarrow> py_error + pyfloat" where
  "calculate_bmi L weight_kg height_cm =
     bind_err (truediv L height_cm 100) (\<lambda>height_m.
     bind_err (pow_op L height_m 2) (\<lambda>height_m_squared.
     bind_err (truediv L weight_kg height_m_squared) (\<lambda>bmi.
     Inr bmi)))"

text \<open>\<^verbatim>\<open>dates[-1]\<close> raises IndexError on an empty list and is evaluated before the BMI.\<close>

definition get_latest_bmi ::
  "pylib \<Rightarrow> datetime list \<Rightarrow> pyfloat list \<Rightarrow> pyfloat
     \<Rightarrow> py_error + (datetime option \<times> pyfloat option)" where
  "get_latest_bmi L dates weights height_cm =
     (if weights = [] then Inr (None, None)
      else if dates = [] then Inl IndexError
      else
        (let latest_date = last dates;
             latest_weight = last weights
         in case calculate_bmi L latest_weight height_cm of
              Inl e \<Rightarrow> Inl e
            | Inr latest_bmi \<Rightarrow> Inr (Some latest_date, Some latest_bmi)))"

section \<open>The calendar\<close>

definition is_leap :: "nat \<Rightarrow> bool" where
  "is_leap y \<longleftrightarrow> y mod 4 = 0 \<and> (y mod 100 \<noteq> 0 \<or> y mod 400 = 0)"

definition days_in_month :: "nat \<Rightarrow> nat \<Rightarrow> nat" where
  "days_in_month y m =
     (if m = 2 then (if is_leap y then 29 else 28)
      else if m = 4 \<or> m = 6 \<or> m = 9 \<or> m = 11 then 30
      else 31)"

text \<open>\<^verbatim>\<open>d + timedelta(days=1)\<close>: the next calendar day.\<close>

definition next_day :: "datetime \<Rightarrow> datetime" where
  "next_day d =
     (if day d < days_in_month (year d) (month d) then d\<lparr>day := day d + 1\<rparr>
      else if month d < 12 then d\<lparr>month := month d + 1, day := 1\<rparr>
      else \<lparr>year = year d + 1, month = 1, day = 1\<rparr>)"

text \<open>\<^verbatim>\<open>a <= b\<close> on datetimes compares year, month and day in this order.\<close>

definition date_le :: "datetime \<Rightarrow> datetime \<Rightarrow> bool" where
  "date_le a b \<longleftrightarrow>
     year a < year b \<or>
     (year a = year b \<and> (month a < month b \<or> (month a = month b \<and> day a \<le> day b)))"

text \<open>Zero-padded decimal fields of \<^verbatim>\<open>strftime\<close>: \<^verbatim>\<open>%m\<close> and \<^verbatim>\<open>%d\<close> have two digits,
  \<^verbatim>\<open>%Y\<close> four.\<close>

definition pad2 :: "nat \<Rightarrow> string" where
  "pad2 n = [digit_char (n div 10), digit_char n]"

definition pad4 :: "nat \<Rightarrow> string" where
  "pad4 n = [digit_char (n div 1000), digit_char (n div 100), digit_char (n div 10), digit_char n]"

text \<open>\<^verbatim>\<open>d.strftime('%Y.%m.%d')\<close>.\<close>

definition strftime :: "datetime \<Rightarrow> string" where
  "strftime d = pad4 (year d) @ ''.'' @ pad2 (month d) @ ''.'' @ pad2 (day d)"

text \<open>\<^verbatim>\<open>d.toordinal()\<close>: the day number in the proleptic Gregorian calendar, day 1 being
  the first of January of year 1.\<close>

definition days_before_month :: "nat \<Rightarrow> nat \<Rightarrow> nat" where
  "days_before_month y m = sum_list (map (days_in_month y) [1..<m])"

definition toordinal :: "datetime \<Rightarrow> int" where
  "toordinal d =
     (let y = int (year d) - 1
      in y * 365 + y div 4 - y div 100 + y div 400
         + int (days_before_month (year d) (month d)) + int (day d))"

section \<open>The world of the program\<close>

text \<open>
  What \<^verbatim>\<open>matplotlib\<close> is asked to draw: each of the three axes holds its artists in
  the order of the calls, and its labels.
\<close>

datatype artist =
  Line2D "datetime list" "pyfloat list" string "string option"
| AxText string
| AxHLine pyfloat

record axes =
  artists :: "artist list"
  ax_title :: string
  ax_xlabel :: string
  ax_ylabel :: string
  ax_grid :: bool
  ax_legend :: bool

record figure =
  ax1 :: axes
  ax2 :: axes
  ax3 :: axes

text \<open>
  The state the program reads and writes: the content of \<^verbatim>\<open>weight_data.csv\<close>
  (\<open>None\<close> when the file does not exist), the figure saved as
  \<^verbatim>\<open>weight_analysis.png\<close>, the figures displayed, and the lines printed.
\<close>

record world =
  weight_data_csv :: "csv_file option"
  weight_analysis_png :: "figure option"
  shown :: "figure list"
  stdout :: "string list"

definition print :: "world \<Rightarrow> string \<Rightarrow> world" where
  "print w s = w\<lparr>stdout := stdout w @ [s]\<rparr>"

section \<open>Bootstrap: \<^verbatim>\<open>initialize_csv\<close>\<close>

text \<open>
  The loop \<^verbatim>\<open>while current_date <= end_date\<close>: the rows it writes, in order. Each
  step moves \<open>current_date\<close> forward in the order \<open>date_le\<close>, below \<open>end_date\<close>.
\<close>

function write_days :: "datetime \<Rightarrow> datetime \<Rightarrow> csv_file" where
  "write_days current_date end_date =
     (if date_le current_date end_date then
        (let date_str = strftime current_date
         in [date_str, [], [], [], []] # write_days (next_day current_date) end_date)
      else [])"
  by pat_completeness auto
termination
proof (relation "measures [\<lambda>(c, e). year e + 1 - year c, \<lambda>(c, e). 12 - month c, \<lambda>(c, e). 31 - day c]")
  show "wf (measures [\<lambda>(c, e). year e + 1 - year c, \<lambda>(c, e). 12 - month c, \<lambda>(c, e). 31 - day c])"
    by simp
next
  fix current_date end_date :: datetime
  assume le: "date_le current_date end_date"
  have dim: "days_in_month (year current_date) (month current_date) \<le> 31"
    by (simp add: days_in_month_def)
  have yr: "year current_date \<le> year end_date"
    using le by (auto simp: date_le_def)
  show "((next_day current_date, end_date), (current_date, end_date))
        \<in> measures [\<lambda>(c, e). year e + 1 - year c, \<lambda>(c, e). 12 - month c, \<lambda>(c, e). 31 - day c]"
    using dim yr by (auto simp: next_day_def)
qed

declare write_days.simps [simp del]

text \<open>Opening the file with mode \<^verbatim>\<open>'w'\<close> creates or truncates it; the header is written
  first.\<close>

definition initialize_csv :: "world \<Rightarrow> world" where
  "initialize_csv w =
     (let start_date = \<lparr>year = 2025, month = 7, day = 1\<rparr>;
          end_date = \<lparr>year = 2026, month = 12, day = 31\<rparr>;
          current_date = start_date
      in w\<lparr>weight_data_csv :=
             Some ([''Date'', ''Weight1'', ''Weight2'', ''Weight3'', ''Weight4'']
                   # write_days current_date end_date)\<rparr>)"

section \<open>Plotting: \<^verbatim>\<open>create_plots\<close>\<close>

definition empty_axes :: axes where
  "empty_axes =
     \<lparr>artists = [], ax_title = [], ax_xlabel = [], ax_ylabel = [],
      ax_grid = False, ax_legend = False\<rparr>"

text \<open>\<^verbatim>\<open>ax.plot(x, y, fmt, label=...)\<close> raises ValueError when \<open>x\<close> and \<open>y\<close> differ in
  length.\<close>

definition ax_plot ::
  "axes \<Rightarrow> datetime list \<Rightarrow> pyfloat list \<Rightarrow> string \<Rightarrow> string option \<Rightarrow> py_error + axes" where
  "ax_plot ax xs ys fmt label =
     (if length xs \<noteq> length ys then Inl ValueError
      else Inr (ax\<lparr>artists := artists ax @ [Line2D xs ys fmt label]\<rparr>))"

text \<open>
  The figure is built axes by axes, in the order of the source; it is saved and shown
  only when all three were drawn. The world is returned with the exception raised, if
  any.
\<close>

definition create_plots ::
  "pylib \<Rightarrow> datetime list \<Rightarrow> pyfloat list \<Rightarrow> pyfloat list \<Rightarrow> world \<Rightarrow> world \<times> py_error option" where
  "create_plots L dates weights weight_changes w =
     (case
        bind_err (ax_plot empty_axes dates weights ''b-'' (Some ''Raw Data'')) (\<lambda>a1.
        bind_err
          (if length weights > 3 then
             (let dates_num = map toordinal dates in
              bind_err (spline L dates_num weights (of_nat (length weights) * (8 / 10)))
                (\<lambda>smoothed_weights.
              bind_err (ax_plot empty_axes dates smoothed_weights ''r-'' (Some ''Smoothed Data''))
                (\<lambda>a.
              bind_err (ax_plot a dates weights ''b-'' (Some ''Raw Data'')) (\<lambda>a.
              Inr (a\<lparr>ax_xlabel := ''Date'', ax_ylabel := ''Weight (kg)'',
                      ax_title := ''Smoothed Weight Change'',
                      ax_grid := True, ax_legend := True\<rparr>)))))
           else
             Inr (empty_axes\<lparr>artists := [AxText ''Not enough data for smoothing''],
                             ax_title := ''Smoothed Weight Change''\<rparr>))
          (\<lambda>a2.
        bind_err
          (if length weight_changes > 0 then
             (let change_dates = drop 1 dates in
              bind_err (ax_plot empty_axes change_dates weight_changes ''g-'' None) (\<lambda>a.
              Inr (a\<lparr>artists := artists a @ [AxHLine 0],
                      ax_xlabel := ''Date'', ax_ylabel := ''Weight Change (kg/day)'',
                      ax_title := ''Weight Change Rate Trend'', ax_grid := True\<rparr>)))
           else
             Inr (empty_axes\<lparr>artists := [AxText ''Not enough data for change rate calculation''],
                             ax_title := ''Weight Change Rate Trend''\<rparr>))
          (\<lambda>a3.
        Inr \<lparr>ax1 = a1\<lparr>ax_xlabel := ''Date'', ax_ylabel := ''Weight (kg)'',
                        ax_title := ''Weight Change Over Time'',
                        ax_grid := True, ax_legend := True\<rparr>,
             ax2 = a2, ax3 = a3\<rparr>)))
      of
        Inl e \<Rightarrow> (w, Some e)
      | Inr fig \<Rightarrow> (w\<lparr>weight_analysis_png := Some fig, shown := shown w @ [fig]\<rparr>, None))"

section \<open>The script: \<^verbatim>\<open>main\<close>\<close>

text \<open>
  \<^verbatim>\<open>os.path.exists\<close> is the test that the file has a content. The world is returned
  with the exception that ended the run, if any. The f-strings format the statistics
  with \<^verbatim>\<open>:.2f\<close>, which raises TypeError on \<^verbatim>\<open>None\<close>; the BMI line is printed when
  both values are truthy, a float being truthy when it is not zero.
\<close>

definition main :: "pylib \<Rightarrow> world \<Rightarrow> world \<times> py_error option" where
  "main L w =
     (let HEIGHT_CM = (175 :: nat) in
      if weight_data_csv w = None then
        (let w = initialize_csv w;
             w = print w ''CSV file created: weight_data.csv'';
             w = print w ''Please fill in the weight data and run the program again.''
         in (w, None))
      else
        (case read_weight_data L (weight_data_csv w) of
           Inl e \<Rightarrow> (w, Some e)
         | Inr (dates, daily_weights) \<Rightarrow>
             if daily_weights = [] then
               (print w ''No weight data found in the CSV file.'', None)
             else
               (let w = print w ''Statistics:'' in
                case calculate_statistics daily_weights of
                  (Some avg_weight, Some max_weight, Some min_weight) \<Rightarrow>
                    (let w = print w (''Average weight: '' @ format_2f L avg_weight @ '' kg'');
                         w = print w (''Maximum weight: '' @ format_2f L max_weight @ '' kg'');
                         w = print w (''Minimum weight: '' @ format_2f L min_weight @ '' kg'');
                         w = print w (''Total data points: '' @ str_nat (length daily_weights)
                                      @ '' days'')
                     in case get_latest_bmi L dates daily_weights (of_nat HEIGHT_CM) of
                          Inl e \<Rightarrow> (w, Some e)
                        | Inr (latest_date, latest_bmi) \<Rightarrow>
                            (let w =
                               (case (latest_date, latest_bmi) of
                                  (Some d, Some b) \<Rightarrow>
                                    if b \<noteq> 0 then
                                      print w (''Latest BMI ('' @ strftime d @ ''): ''
                                               @ format_2f L b @ '' (Height: ''
                                               @ str_nat HEIGHT_CM @ ''cm)'')
                                    else w
                                | _ \<Rightarrow> w);
                                 weight_changes = calculate_weight_changes daily_weights
                             in case create_plots L dates daily_weights weight_changes w of
                                  (w, Some e) \<Rightarrow> (w, Some e)
                                | (w, None) \<Rightarrow>
                                    (print w (''Plots saved as '' @ [CHR 0x27] @ ''weight_analysis.png'' @ [CHR 0x27]), None)))
                | _ \<Rightarrow> (w, Some TypeError))))"

section \<open>What the specification speaks of\<close>

text \<open>
  The notions the specification uses, each defined after its words; the theorems below
  compare them with the functions of the program.
\<close>

text \<open>The arithmetic mean of a list of numbers.\<close>

definition arithmetic_mean :: "pyfloat list \<Rightarrow> pyfloat" where
  "arithmetic_mean xs = sum_list xs / of_nat (length xs)"

text \<open>A measurement cell is valid and numeric when it holds a string that is not blank
  and that \<^verbatim>\<open>float\<close> accepts; its value is then the number read.\<close>

definition cell_value :: "pylib \<Rightarrow> row \<Rightarrow> nat \<Rightarrow> pyfloat option" where
  "cell_value L r i =
     (case r (weight_key i) of
        Some (Some s) \<Rightarrow> if strip s = [] then None else float_of L s
      | _ \<Rightarrow> None)"

text \<open>The valid numeric measurement cells of a row, from \<^verbatim>\<open>Weight1\<close> to \<^verbatim>\<open>Weight4\<close>.\<close>

definition valid_cells :: "pylib \<Rightarrow> row \<Rightarrow> pyfloat list" where
  "valid_cells L r = List.map_filter (cell_value L r) [1..<5]"

text \<open>The rows with at least one valid numeric cell, in file order.\<close>

definition measured_rows :: "pylib \<Rightarrow> row list \<Rightarrow> row list" where
  "measured_rows L rows = filter (\<lambda>r. valid_cells L r \<noteq> []) rows"

text \<open>The date of a row, where its \<^verbatim>\<open>Date\<close> cell reads as one.\<close>

definition row_date :: "pylib \<Rightarrow> row \<Rightarrow> datetime option" where
  "row_date L r = (case r ''Date'' of Some (Some s) \<Rightarrow> strptime L s | _ \<Rightarrow> None)"

text \<open>A row of a table with the five columns of the header: the keys are there, and
  the date reads as one if the row has a measurement.\<close>

definition has_weight_keys :: "row \<Rightarrow> bool" where
  "has_weight_keys r = list_all (\<lambda>i. r (weight_key i) \<noteq> None) [1..<5]"

definition row_ok :: "pylib \<Rightarrow> row \<Rightarrow> bool" where
  "row_ok L r \<longleftrightarrow>
     r ''Date'' \<noteq> None \<and> has_weight_keys r \<and> (valid_cells L r \<noteq> [] \<longrightarrow> row_date L r \<noteq> None)"

text \<open>A cell that is empty (absent, empty or blank) or non-numeric.\<close>

definition empty_or_non_numeric :: "pylib \<Rightarrow> string option \<Rightarrow> bool" where
  "empty_or_non_numeric L c =
     (case c of None \<Rightarrow> True | Some s \<Rightarrow> strip s = [] \<or> float_of L s = None)"

text \<open>A row whose four measurement cells are all empty or non-numeric.\<close>

definition no_numeric_cell :: "pylib \<Rightarrow> row \<Rightarrow> bool" where
  "no_numeric_cell L r =
     list_all (\<lambda>i. case r (weight_key i) of None \<Rightarrow> False | Some c \<Rightarrow> empty_or_non_numeric L c)
       [1..<5]"

text \<open>\<open>x\<close> is \<open>y\<close> up to the relative error \<open>u\<close>: what a rounded operation is to its
  exact result.\<close>

definition close_to :: "rat \<Rightarrow> rat \<Rightarrow> rat \<Rightarrow> bool" where
  "close_to u x y \<longleftrightarrow> \<bar>x - y\<bar> \<le> u * \<bar>y\<bar>"

text \<open>The first differences of a sequence: each element minus the one before it.\<close>

fun first_differences :: "'a::minus list \<Rightarrow> 'a list" where
  "first_differences (x # y # zs) = (y - x) # first_differences (y # zs)"
| "first_differences _ = []"

text \<open>A calendar day: a month from 1 to 12 and a day of this month.\<close>

definition valid_date :: "datetime \<Rightarrow> bool" where
  "valid_date d \<longleftrightarrow>
     1 \<le> month d \<and> month d \<le> 12 \<and> 1 \<le> day d \<and> day d \<le> days_in_month (year d) (month d)"

text \<open>Strictly earlier, in the order of the dates.\<close>

definition date_lt :: "datetime \<Rightarrow> datetime \<Rightarrow> bool" where
  "date_lt a b \<longleftrightarrow> date_le a b \<and> \<not> date_le b a"

text \<open>The calendar days from \<open>a\<close> to \<open>b\<close> inclusive, in ascending order: every day of
  every month of the years concerned, kept when it lies in the range.\<close>

definition month_days :: "nat \<Rightarrow> nat \<Rightarrow> datetime list" where
  "month_days y m = map (\<lambda>d. \<lparr>year = y, month = m, day = d\<rparr>) [1..<days_in_month y m + 1]"

definition days_of_year :: "nat \<Rightarrow> datetime list" where
  "days_of_year y = concat (map (month_days y) [1..<13])"

definition calendar_days :: "datetime \<Rightarrow> datetime \<Rightarrow> datetime list" where
  "calendar_days a b =
     filter (\<lambda>d. date_le a d \<and> date_le d b) (concat (map days_of_year [year a..<year b + 1]))"

text \<open>The row of a day in a table not yet filled in: the date and four empty cells.\<close>

definition day_row :: "datetime \<Rightarrow> string list" where
  "day_row d = [strftime d, [], [], [], []]"

text \<open>The second chart when there is not enough data: the fallback message, no curve.\<close>

definition smoothing_fallback :: axes where
  "smoothing_fallback =
     \<lparr>artists = [AxText ''Not enough data for smoothing''],
      ax_title = ''Smoothed Weight Change'', ax_xlabel = [], ax_ylabel = [],
      ax_grid = False, ax_legend = False\<rparr>"

text \<open>The smoothed curve among the artists of a chart.\<close>

fun is_spline_line :: "artist \<Rightarrow> bool" where
  "is_spline_line (Line2D xs ys fmt label) = (label = Some ''Smoothed Data'')"
| "is_spline_line _ = False"

text \<open>The lines the bootstrap prints.\<close>

definition bootstrap_messages :: "string list" where
  "bootstrap_messages =
     [''CSV file created: weight_data.csv'',
      ''Please fill in the weight data and run the program again.'']"

text \<open>The run from \<open>w\<close> to \<open>w'\<close> left the table \<open>f\<close> in place and printed none of the
  bootstrap lines.\<close>

definition keeps :: "csv_file \<Rightarrow> world \<Rightarrow> world \<Rightarrow> bool" where
  "keeps f w w' \<longleftrightarrow>
     weight_data_csv w' = Some f
     \<and> (\<exists>new. stdout w' = stdout w @ new \<and> set new \<inter> set bootstrap_messages = {})"

section \<open>An instance of the library\<close>

text \<open>
  To run the model on concrete files the library parameters are instantiated. The
  instance reads plain decimal numerals (an optional sign, digits, an optional point
  and digits) and dates written \<^verbatim>\<open>YYYY.MM.DD\<close>, as Python does; Python accepts more
  forms (exponents, one-digit months), which the instance refuses. It prints two
  decimals rounding half up, and its spline returns the data unchanged. Its float
  operations round the exact result to the nearest binary64 float, ties to even, with
  gradual underflow; the power overflows from \<open>2 ^ 1024\<close> on. Python's power comes from
  the C library and may differ from this in the last place; a quotient too large for a
  float is \<^verbatim>\<open>inf\<close> in Python and is kept exact here.
\<close>

text \<open>The number of binary digits of a positive integer.\<close>

function bit_length :: "int \<Rightarrow> int" where
  "bit_length n = (if n \<le> 0 then 0 else 1 + bit_length (n div 2))"
  by pat_completeness auto
termination
  by (relation "measure nat") auto

declare bit_length.simps [simp del]

text \<open>The same number read off a binary numeral, digit by digit.\<close>

primrec num_bits :: "num \<Rightarrow> int" where
  "num_bits num.One = 1"
| "num_bits (num.Bit0 k) = 1 + num_bits k"
| "num_bits (num.Bit1 k) = 1 + num_bits k"

definition int_pow2 :: "int \<Rightarrow> int" where
  "int_pow2 k = 2 ^ nat k"

text \<open>The exponent of the positive rational \<open>n / d\<close>: the greatest \<open>e\<close> with
  \<open>2 ^ e \<le> n / d\<close>.\<close>

definition floor_log2 :: "int \<Rightarrow> int \<Rightarrow> int" where
  "floor_log2 n d =
     (let e = bit_length n - bit_length d
      in if (if 0 \<le> e then d * int_pow2 e \<le> n else d \<le> n * int_pow2 (- e)) then e else e - 1)"

text \<open>The integer nearest to \<open>n / d\<close>, the even one of the two when it lies half way.\<close>

definition round_half_even :: "int \<Rightarrow> int \<Rightarrow> int" where
  "round_half_even n d =
     (let f = n div d; r = 2 * (n mod d)
      in if r < d then f else if d < r then f + 1 else if even f then f else f + 1)"

text \<open>Rounding to binary64: 53 significant bits above \<open>2 ^ - 1022\<close>, multiples of
  \<open>2 ^ - 1074\<close> below; \<open>None\<close> when the rounded value is beyond the largest float.\<close>

definition binary64_round :: "rat \<Rightarrow> rat option" where
  "binary64_round x =
     (if x = 0 then Some 0
      else
        (let (n, d) = quotient_of \<bar>x\<bar>;
             e = floor_log2 n d
         in if 1024 \<le> e then None
            else
              (let q = max e (- 1022) - 52;
                   r = (if 0 \<le> q then round_half_even n (d * int_pow2 q)
                        else round_half_even (n * int_pow2 (- q)) d)
               in if 0 \<le> q \<and> int_pow2 1024 \<le> r * int_pow2 q then None
                  else
                    (let v = (if 0 \<le> q then of_int (r * int_pow2 q)
                              else of_int r / of_int (int_pow2 (- q)))
                     in Some (if x < 0 then - v else v)))))"

definition binary64_div :: "pyfloat \<Rightarrow> pyfloat \<Rightarrow> pyfloat" where
  "binary64_div a b = (case binary64_round (a / b) of Some x \<Rightarrow> x | None \<Rightarrow> a / b)"

definition binary64_pow :: "pyfloat \<Rightarrow> nat \<Rightarrow> pyfloat option" where
  "binary64_pow a n = binary64_round (a ^ n)"

definition digit_val :: "char \<Rightarrow> nat option" where
  "digit_val c =
     (let n = (of_char c :: nat) in if 48 \<le> n \<and> n \<le> 57 then Some (n - 48) else None)"

fun digits_val :: "string \<Rightarrow> nat \<Rightarrow> nat option" where
  "digits_val [] acc = Some acc"
| "digits_val (c # cs) acc =
     (case digit_val c of None \<Rightarrow> None | Some d \<Rightarrow> digits_val cs (10 * acc + d))"

definition plain_float :: "string \<Rightarrow> pyfloat option" where
  "plain_float s =
     (let t = strip s;
          neg = (case t of [] \<Rightarrow> False | c # _ \<Rightarrow> c = CHR ''-'');
          u = (case t of [] \<Rightarrow> [] | c # cs \<Rightarrow> if c = CHR ''-'' \<or> c = CHR ''+'' then cs else t);
          ip = takeWhile (\<lambda>c. c \<noteq> CHR ''.'') u;
          fp = drop 1 (dropWhile (\<lambda>c. c \<noteq> CHR ''.'') u)
      in if ip = [] \<and> fp = [] then None
         else
           (case (digits_val ip 0, digits_val fp 0) of
              (Some a, Some b) \<Rightarrow>
                (let v = of_nat a + of_nat b / 10 ^ length fp
                 in Some (if neg then - v else v))
            | _ \<Rightarrow> None))"

definition plain_strptime :: "string \<Rightarrow> datetime option" where
  "plain_strptime s =
     (if length s = 10 \<and> s ! 4 = CHR ''.'' \<and> s ! 7 = CHR ''.'' then
        (case (digits_val (take 4 s) 0, digits_val (take 2 (drop 5 s)) 0,
               digits_val (drop 8 s) 0) of
           (Some y, Some m, Some d) \<Rightarrow>
             if 1 \<le> y \<and> 1 \<le> m \<and> m \<le> 12 \<and> 1 \<le> d \<and> d \<le> days_in_month y m
             then Some \<lparr>year = y, month = m, day = d\<rparr> else None
         | _ \<Rightarrow> None)
      else None)"

definition plain_format_2f :: "pyfloat \<Rightarrow> string" where
  "plain_format_2f x =
     (let n = nat \<lfloor>\<bar>x\<bar> * 100 + 1 / 2\<rfloor>
      in (if x < 0 \<and> n \<noteq> 0 then ''-'' else []) @ str_nat (n div 100) @ ''.'' @ pad2 (n mod 100))"

definition identity_spline :: "int list \<Rightarrow> pyfloat list \<Rightarrow> pyfloat \<Rightarrow> py_error + pyfloat list" where
  "identity_spline xs ys s = (if length xs = length ys then Inr ys else Inl ValueError)"

definition plain_lib :: pylib where
  "plain_lib =
     \<lparr>float_of = plain_float, strptime = plain_strptime,
      format_2f = plain_format_2f, spline = identity_spline,
      float_div = binary64_div, float_pow = binary64_pow\<rparr>"

text \<open>The world before the first run: no file, nothing printed.\<close>

definition fresh_world :: world where
  "fresh_world =
     \<lparr>weight_data_csv = None, weight_analysis_png = None, shown = [], stdout = []\<rparr>"

text \<open>The header of the table, and a small filled-in table.\<close>

definition csv_header :: "string list" where
  "csv_header = [''Date'', ''Weight1'', ''Weight2'', ''Weight3'', ''Weight4'']"

definition example_csv :: csv_file where
  "example_csv =
     [csv_header,
      [''2025.07.01'', ''70'', [], ''71'', []],
      [''2025.07.02'', [], [], [], []],
      [''2025.07.03'', ''abc'', ''  '', ''71'', []],
      [''2025.07.04'', ''69'', ''n/a'', [], []]]"

text \<open>Four days of measurements, and the first three of them.\<close>

definition example_dates :: "datetime list" where
  "example_dates =
     [\<lparr>year = 2025, month = 7, day = 1\<rparr>, \<lparr>year = 2025, month = 7, day = 2\<rparr>,
      \<lparr>year = 2025, month = 7, day = 3\<rparr>, \<lparr>year = 2025, month = 7, day = 4\<rparr>]"

definition example_weights :: "pyfloat list" where
  "example_weights = [70, 71, 69, 70]"

text \<open>Two rows of such a table: one with a single number among its cells, one with
  none.\<close>

definition row3 :: row where
  "row3 = dict_row csv_header [''2025.07.03'', ''abc'', ''  '', ''71'', []]"

definition row_blank :: row where
  "row_blank = dict_row csv_header [''2025.07.02'', ''n/a'', ''  '', [], ''-'']"

section \<open>Evaluating the float instance\<close>

lemma bit_length_numeral [simp]: "bit_length (numeral k) = num_bits k"
proof (induction k)
  case One
  show ?case by (simp add: bit_length.simps)
next
  case (Bit0 k)
  have "bit_length (numeral (num.Bit0 k)) = 1 + bit_length (numeral (num.Bit0 k) div 2)"
    by (subst bit_length.simps) simp
  with Bit0 show ?case by simp
next
  case (Bit1 k)
  have "bit_length (numeral (num.Bit1 k)) = 1 + bit_length (numeral (num.Bit1 k) div 2)"
    by (subst bit_length.simps) simp
  with Bit1 show ?case by simp
qed

lemma bit_length_code [code]:
  "bit_length 0 = 0"
  "bit_length (Int.Pos k) = num_bits k"
  "bit_length (Int.Neg k) = 0"
  by (simp_all add: bit_length.simps [of 0] bit_length.simps [of "- numeral k"] Int.Pos_def Int.Neg_def)

section \<open>The change series\<close>

lemma changes_loop_eq:
  "changes_loop ws ks acc = acc @ map (\<lambda>i. ws ! i - ws ! (i - 1)) ks"
  by (induction ks arbitrary: acc) simp_all

lemma first_differences_length: "length (first_differences ws) = length ws - 1"
  by (induction ws rule: first_differences.induct) simp_all

lemma first_differences_nth:
  "i + 1 < length ws \<Longrightarrow> first_differences ws ! i = ws ! (i + 1) - ws ! i"
proof (induction ws arbitrary: i rule: first_differences.induct)
  case (1 x y zs)
  then show ?case by (cases i) simp_all
qed simp_all

lemma calculate_weight_changes_eq:
  "calculate_weight_changes ws = first_differences ws"
proof (rule nth_equalityI)
  show "length (calculate_weight_changes ws) = length (first_differences ws)"
    by (simp add: calculate_weight_changes_def changes_loop_eq first_differences_length)
next
  fix i assume "i < length (calculate_weight_changes ws)"
  then have i: "i + 1 < length ws"
    by (simp add: calculate_weight_changes_def changes_loop_eq)
  then have "[Suc 0..<length ws] ! i = Suc i"
    by (subst nth_upt) simp_all
  with i show "calculate_weight_changes ws ! i = first_differences ws ! i"
    by (simp add: calculate_weight_changes_def changes_loop_eq first_differences_nth)
qed

text \<open>
  C2, as amended. For every list of weights, \<^verbatim>\<open>calculate_weight_changes\<close> returns the
  first differences of consecutive elements: element \<open>i\<close> of the result is
  \<open>weights[i+1] - weights[i]\<close>. For every non-empty list the result has one element
  less than the list; on the empty list the result is empty. The weights 70, 71, 69
  give the changes 1, -2.
\<close>

theorem calculate_weight_changes_first_differences:
  "calculate_weight_changes weights = first_differences weights
   \<and> (\<forall>i. i + 1 < length weights \<longrightarrow>
          calculate_weight_changes weights ! i = weights ! (i + 1) - weights ! i)
   \<and> (weights \<noteq> [] \<longrightarrow>
        int (length (calculate_weight_changes weights)) = int (length weights) - 1)
   \<and> (weights = [] \<longrightarrow> calculate_weight_changes weights = [])
   \<and> calculate_weight_changes [70, 71, 69 :: int] = [1, - 2]"
proof -
  have "weights \<noteq> [] \<longrightarrow> int (length (first_differences weights)) = int (length weights) - 1"
    by (cases weights) (simp_all add: first_differences_length)
  moreover have "first_differences [70, 71, 69 :: int] = [1, - 2]" by simp
  ultimately show ?thesis
    by (simp add: calculate_weight_changes_eq first_differences_nth)
qed

theorem calculate_weight_changes_first_differences_witness:
  "[70, 71, 69 :: rat] \<noteq> []
   \<and> (0::nat) + 1 < length [70, 71, 69 :: rat]
   \<and> calculate_weight_changes [70, 71, 69 :: rat] ! 0 = 1
   \<and> int (length (calculate_weight_changes [70, 71, 69 :: rat])) = 2"
  using calculate_weight_changes_first_differences [of "[70, 71, 69 :: rat]"]
  by simp

text \<open>
  The length of the result is not the length of the input minus 1 on every list: the
  empty list has length 0, and so has its result, where the claim asks for -1.
\<close>

theorem calculate_weight_changes_empty_counterexample:
  "int (length (calculate_weight_changes ([] :: int list))) \<noteq> int (length ([] :: int list)) - 1"
  by (simp add: calculate_weight_changes_def)

section \<open>Statistics\<close>

lemma fold_max_Max: "fold max xs (x::rat) = Max (set (x # xs))"
  by (rule Max.set_eq_fold [symmetric])

lemma fold_min_Min: "fold min xs (x::rat) = Min (set (x # xs))"
  by (rule Min.set_eq_fold [symmetric])

text \<open>
  C4. \<^verbatim>\<open>calculate_statistics\<close> on the empty sequence returns \<^verbatim>\<open>None\<close> for the mean, the
  maximum and the minimum, and raises nothing; on a non-empty sequence it returns the
  arithmetic mean, the greatest and the least element.
\<close>

theorem calculate_statistics_empty_and_nonempty:
  "calculate_statistics [] = (None, None, None)
   \<and> (weights \<noteq> [] \<longrightarrow>
        calculate_statistics weights =
          (Some (arithmetic_mean weights), Some (Max (set weights)), Some (Min (set weights))))"
proof (cases weights)
  case Nil
  then show ?thesis by simp
next
  case (Cons w ws)
  then show ?thesis
    by (simp add: np_mean_def np_max_def np_min_def fold_max_Max fold_min_Min
                  arithmetic_mean_def del: Max_insert Min_insert set_simps)
qed

theorem calculate_statistics_empty_and_nonempty_witness:
  "[70, 71, 69 :: rat] \<noteq> []
   \<and> calculate_statistics [70, 71, 69] = (Some 70, Some 71, Some 69)"
  using calculate_statistics_empty_and_nonempty [of "[70, 71, 69]"]
  by (simp add: arithmetic_mean_def)

section \<open>BMI\<close>

lemma calculate_bmi_unfold:
  "calculate_bmi L weight_kg height_cm =
     (case float_pow L (float_div L height_cm 100) 2 of
        None \<Rightarrow> Inl OverflowError
      | Some sq \<Rightarrow> if sq = 0 then Inl ZeroDivisionError else Inr (float_div L weight_kg sq))"
  by (simp add: calculate_bmi_def truediv_def pow_op_def bind_err_def split: option.splits)

lemma calculate_bmi_errors:
  "calculate_bmi L weight_kg height_cm = Inl e \<Longrightarrow> e = ZeroDivisionError \<or> e = OverflowError"
  by (auto simp: calculate_bmi_unfold split: option.splits if_splits)

lemma cube_up:
  fixes u :: rat
  assumes "0 \<le> u" "u \<le> 1 / 16"
  shows "(1 + u) ^ 3 * (1 - 5 * u) \<le> 1 - u"
proof -
  have "(1 + u) ^ 3 * (1 - 5 * u) = 1 - u - (u + 12 * u ^ 2 + 14 * u ^ 3 + 5 * u ^ 4)"
    by (simp add: power3_eq_cube power2_eq_square power4_eq_xxxx algebra_simps)
  moreover have "0 \<le> u + 12 * u ^ 2 + 14 * u ^ 3 + 5 * u ^ 4"
    using assms by simp
  ultimately show ?thesis by simp
qed

lemma cube_down:
  fixes u :: rat
  assumes "0 \<le> u" "u \<le> 1 / 16"
  shows "1 + u \<le> (1 - u) ^ 3 * (1 + 5 * u)"
proof -
  have e: "(1 - u) ^ 3 * (1 + 5 * u) = 1 + u + u * (1 - 12 * u + 14 * u ^ 2 - 5 * u ^ 3)"
    by (simp add: power3_eq_cube power2_eq_square algebra_simps)
  have c: "u ^ 3 \<le> u ^ 2"
    using assms by (simp add: power3_eq_cube power2_eq_square mult_left_le)
  have s: "0 \<le> u ^ 2" by simp
  have "0 \<le> 1 - 12 * u + 14 * u ^ 2 - 5 * u ^ 3"
    using assms c s by linarith
  then have "0 \<le> u * (1 - 12 * u + 14 * u ^ 2 - 5 * u ^ 3)"
    using assms by simp
  with e show ?thesis by simp
qed

lemma square_bounds:
  fixes u x hm :: rat
  assumes u: "0 \<le> u" "u \<le> 1 / 16" and h: "\<bar>hm - x\<bar> \<le> u * \<bar>x\<bar>"
  shows "(1 - u) ^ 2 * x ^ 2 \<le> hm ^ 2" and "hm ^ 2 \<le> (1 + u) ^ 2 * x ^ 2"
proof -
  have up: "\<bar>hm\<bar> \<le> (1 + u) * \<bar>x\<bar>"
    using h by (simp add: algebra_simps)
  have lo: "(1 - u) * \<bar>x\<bar> \<le> \<bar>hm\<bar>"
    using h by (simp add: algebra_simps)
  have nn: "0 \<le> (1 - u) * \<bar>x\<bar>" using u by simp
  have "((1 - u) * \<bar>x\<bar>) ^ 2 \<le> \<bar>hm\<bar> ^ 2"
    by (rule power_mono [OF lo nn])
  then show "(1 - u) ^ 2 * x ^ 2 \<le> hm ^ 2"
    by (simp add: power_mult_distrib)
  have "\<bar>hm\<bar> ^ 2 \<le> ((1 + u) * \<bar>x\<bar>) ^ 2"
    by (rule power_mono [OF up]) simp
  then show "hm ^ 2 \<le> (1 + u) ^ 2 * x ^ 2"
    by (simp add: power_mult_distrib)
qed

lemma rounded_square_bounds:
  fixes u x hm sq :: rat
  assumes u: "0 \<le> u" "u \<le> 1 / 16" and h: "\<bar>hm - x\<bar> \<le> u * \<bar>x\<bar>"
    and s: "\<bar>sq - hm ^ 2\<bar> \<le> u * \<bar>hm ^ 2\<bar>"
  shows "(1 - u) ^ 3 * x ^ 2 \<le> sq" and "sq \<le> (1 + u) ^ 3 * x ^ 2"
proof -
  note sb = square_bounds [OF u h]
  have a: "(1 - u) * hm ^ 2 \<le> sq" "sq \<le> (1 + u) * hm ^ 2"
    using s by (simp_all add: algebra_simps)
  have "(1 - u) * ((1 - u) ^ 2 * x ^ 2) \<le> (1 - u) * hm ^ 2"
    using sb(1) u by (intro mult_left_mono) simp_all
  with a(1) show "(1 - u) ^ 3 * x ^ 2 \<le> sq"
    by (simp add: power3_eq_cube power2_eq_square algebra_simps)
  have "(1 + u) * hm ^ 2 \<le> (1 + u) * ((1 + u) ^ 2 * x ^ 2)"
    using sb(2) u by (intro mult_left_mono) simp_all
  with a(2) show "sq \<le> (1 + u) ^ 3 * x ^ 2"
    by (simp add: power3_eq_cube power2_eq_square algebra_simps)
qed

lemma rel_error_bound:
  fixes u x hm sq w b :: rat
  assumes u: "0 \<le> u" "u \<le> 1 / 16" and x: "x \<noteq> 0"
    and h: "\<bar>hm - x\<bar> \<le> u * \<bar>x\<bar>"
    and s: "\<bar>sq - hm ^ 2\<bar> \<le> u * \<bar>hm ^ 2\<bar>"
    and d: "\<bar>b - w / sq\<bar> \<le> u * \<bar>w / sq\<bar>"
  shows "0 < sq" and "\<bar>b - w / x ^ 2\<bar> \<le> 5 * u * \<bar>w / x ^ 2\<bar>"
proof -
  let ?A = "x ^ 2"
  have A: "0 < ?A" using x by simp
  note sb = rounded_square_bounds [OF u h s]
  have "0 < (1 - u) ^ 3" using u by simp
  then have "0 < (1 - u) ^ 3 * ?A" using A by simp
  with sb(1) show pos: "0 < sq" by linarith
  have key: "u * ?A + \<bar>?A - sq\<bar> \<le> 5 * u * sq"
  proof (cases "?A \<le> sq")
    case True
    have "sq * (1 - 5 * u) \<le> (1 + u) ^ 3 * ?A * (1 - 5 * u)"
      using sb(2) u by (intro mult_right_mono) simp_all
    also have "\<dots> = ((1 + u) ^ 3 * (1 - 5 * u)) * ?A" by (simp add: algebra_simps)
    also have "\<dots> \<le> (1 - u) * ?A"
      using cube_up [OF u] A by (intro mult_right_mono) simp_all
    finally have "sq * (1 - 5 * u) \<le> (1 - u) * ?A" .
    with True show ?thesis by (simp add: algebra_simps)
  next
    case False
    have "(1 + u) * ?A \<le> ((1 - u) ^ 3 * (1 + 5 * u)) * ?A"
      using cube_down [OF u] A by (intro mult_right_mono) simp_all
    also have "\<dots> = (1 - u) ^ 3 * ?A * (1 + 5 * u)" by (simp add: algebra_simps)
    also have "\<dots> \<le> sq * (1 + 5 * u)"
      using sb(1) u by (intro mult_right_mono) simp_all
    finally have "(1 + u) * ?A \<le> sq * (1 + 5 * u)" .
    with False show ?thesis by (simp add: algebra_simps)
  qed
  have "\<bar>b - w / ?A\<bar> \<le> \<bar>b - w / sq\<bar> + \<bar>w / sq - w / ?A\<bar>"
    by simp
  also have "\<dots> \<le> u * \<bar>w / sq\<bar> + \<bar>w / sq - w / ?A\<bar>"
    using d by simp
  also have "\<dots> = \<bar>w\<bar> * ((u * ?A + \<bar>?A - sq\<bar>) / (sq * ?A))"
  proof -
    have "w / sq - w / ?A = w * (?A - sq) / (sq * ?A)"
      using pos A by (simp add: field_simps)
    then have "\<bar>w / sq - w / ?A\<bar> = \<bar>w\<bar> * \<bar>?A - sq\<bar> / (sq * ?A)"
      using pos A by (simp add: abs_mult)
    moreover have "u * \<bar>w / sq\<bar> = \<bar>w\<bar> * (u * ?A) / (sq * ?A)"
      using pos A by (simp add: field_simps abs_mult)
    ultimately show ?thesis
      by (simp add: algebra_simps add_divide_distrib)
  qed
  also have "\<dots> \<le> \<bar>w\<bar> * ((5 * u * sq) / (sq * ?A))"
    using key pos A by (intro mult_left_mono divide_right_mono) simp_all
  also have "\<dots> = 5 * u * \<bar>w / ?A\<bar>"
    using pos A by (simp add: field_simps abs_mult)
  finally show "\<bar>b - w / x ^ 2\<bar> \<le> 5 * u * \<bar>w / x ^ 2\<bar>" .
qed

lemma calculate_bmi_accurate:
  assumes "0 \<le> u" "u \<le> 1 / 16" "height_cm \<noteq> 0"
    and "close_to u (float_div L height_cm 100) (height_cm / 100)"
    and "float_pow L (float_div L height_cm 100) 2 = Some sq"
    and "close_to u sq ((float_div L height_cm 100) ^ 2)"
    and "close_to u (float_div L weight_kg sq) (weight_kg / sq)"
  shows "\<exists>b. calculate_bmi L weight_kg height_cm = Inr b
             \<and> close_to (5 * u) b (weight_kg / (height_cm / 100) ^ 2)"
proof -
  have x: "height_cm / 100 \<noteq> 0" using assms(3) by simp
  note r = rel_error_bound [OF assms(1,2) x assms(4) [unfolded close_to_def]
             assms(6) [unfolded close_to_def] assms(7) [unfolded close_to_def]]
  from r(1) assms(5) have "calculate_bmi L weight_kg height_cm = Inr (float_div L weight_kg sq)"
    by (simp add: calculate_bmi_unfold)
  with r(2) show ?thesis by (simp add: close_to_def)
qed

lemma bmi_70_175_binary64:
  "calculate_bmi plain_lib 70 175 = Inr (6433713753386423 / 281474976710656)"
  by code_simp

text \<open>
  C5, as amended. \<^verbatim>\<open>calculate_bmi\<close> returns exactly when the square of the height in
  metres (the height in centimetres divided by 100) neither overflows nor is zero, and
  what it returns is the weight divided by this square, each operation being the float
  operation; it raises OverflowError when the square overflows and ZeroDivisionError
  when the square is zero. Whenever the three operations are accurate to a relative
  error \<open>u\<close>, the result is the weight divided by the square of the height in metres up to
  the relative error \<open>5 u\<close>; for 70 kg and 175 cm, with operations accurate to
  \<open>2 ^ - 52\<close>, it lies within 0.005 of 22.86, and in binary64 arithmetic it is
  22.857142857142858.
\<close>

theorem calculate_bmi_formula:
  "(calculate_bmi L weight_kg height_cm = Inr bmi \<longleftrightarrow>
      (\<exists>sq. float_pow L (float_div L height_cm 100) 2 = Some sq \<and> sq \<noteq> 0
            \<and> bmi = float_div L weight_kg sq))
   \<and> (calculate_bmi L weight_kg height_cm = Inl e \<longleftrightarrow>
        (float_pow L (float_div L height_cm 100) 2 = None \<and> e = OverflowError)
        \<or> (float_pow L (float_div L height_cm 100) 2 = Some 0 \<and> e = ZeroDivisionError))
   \<and> (0 \<le> u \<and> u \<le> 1 / 16 \<and> height_cm \<noteq> 0
        \<and> close_to u (float_div L height_cm 100) (height_cm / 100)
        \<and> float_pow L (float_div L height_cm 100) 2 = Some sq
        \<and> close_to u sq ((float_div L height_cm 100) ^ 2)
        \<and> close_to u (float_div L weight_kg sq) (weight_kg / sq)
       \<longrightarrow> (\<exists>b. calculate_bmi L weight_kg height_cm = Inr b
                \<and> close_to (5 * u) b (weight_kg / (height_cm / 100) ^ 2)))
   \<and> (close_to (1 / 2 ^ 52) (float_div L 175 100) (175 / 100)
        \<and> float_pow L (float_div L 175 100) 2 = Some sq'
        \<and> close_to (1 / 2 ^ 52) sq' ((float_div L 175 100) ^ 2)
        \<and> close_to (1 / 2 ^ 52) (float_div L 70 sq') (70 / sq')
       \<longrightarrow> (\<exists>b. calculate_bmi L 70 175 = Inr b \<and> \<bar>b - 2286 / 100\<bar> < 5 / 1000))
   \<and> calculate_bmi plain_lib 70 175 = Inr (6433713753386423 / 281474976710656)"
proof (intro conjI impI)
  show "calculate_bmi L weight_kg height_cm = Inr bmi \<longleftrightarrow>
      (\<exists>sq. float_pow L (float_div L height_cm 100) 2 = Some sq \<and> sq \<noteq> 0
            \<and> bmi = float_div L weight_kg sq)"
    by (auto simp: calculate_bmi_unfold split: option.splits)
next
  show "calculate_bmi L weight_kg height_cm = Inl e \<longleftrightarrow>
        (float_pow L (float_div L height_cm 100) 2 = None \<and> e = OverflowError)
        \<or> (float_pow L (float_div L height_cm 100) 2 = Some 0 \<and> e = ZeroDivisionError)"
    by (auto simp: calculate_bmi_unfold split: option.splits)
next
  assume "0 \<le> u \<and> u \<le> 1 / 16 \<and> height_cm \<noteq> 0
        \<and> close_to u (float_div L height_cm 100) (height_cm / 100)
        \<and> float_pow L (float_div L height_cm 100) 2 = Some sq
        \<and> close_to u sq ((float_div L height_cm 100) ^ 2)
        \<and> close_to u (float_div L weight_kg sq) (weight_kg / sq)"
  then show "\<exists>b. calculate_bmi L weight_kg height_cm = Inr b
                \<and> close_to (5 * u) b (weight_kg / (height_cm / 100) ^ 2)"
    using calculate_bmi_accurate [of u height_cm L sq weight_kg] by blast
next
  assume a: "close_to (1 / 2 ^ 52) (float_div L 175 100) (175 / 100)
        \<and> float_pow L (float_div L 175 100) 2 = Some sq'
        \<and> close_to (1 / 2 ^ 52) sq' ((float_div L 175 100) ^ 2)
        \<and> close_to (1 / 2 ^ 52) (float_div L 70 sq') (70 / sq')"
  have "(0::rat) \<le> 1 / 2 ^ 52" "(1::rat) / 2 ^ 52 \<le> 1 / 16" "(175::rat) \<noteq> 0"
    by simp_all
  from calculate_bmi_accurate [OF this, of L sq' 70] a
  obtain b where b: "calculate_bmi L 70 175 = Inr b"
      "close_to (5 * (1 / 2 ^ 52)) b (70 / (175 / 100) ^ 2)"
    by blast
  have "\<bar>b - 2286 / 100\<bar> < 5 / 1000"
  proof -
    have "\<bar>b - 160 / 7\<bar> \<le> 5 * (1 / 2 ^ 52) * (160 / 7)"
      using b(2) by (simp add: close_to_def power2_eq_square)
    also have "\<dots> \<le> 1 / 1000" by simp
    finally show ?thesis by linarith
  qed
  with b(1) show "\<exists>b. calculate_bmi L 70 175 = Inr b \<and> \<bar>b - 2286 / 100\<bar> < 5 / 1000"
    by blast
next
  show "calculate_bmi plain_lib 70 175 = Inr (6433713753386423 / 281474976710656)"
    by (rule bmi_70_175_binary64)
qed

lemma plain_lib_exact_operands:
  "float_div plain_lib 175 100 = 7 / 4"
  "float_pow plain_lib (7 / 4) 2 = Some (49 / 16)"
  "float_div plain_lib 70 (49 / 16) = 6433713753386423 / 281474976710656"
  by code_simp+

lemma plain_lib_accurate_70_175:
  "close_to (1 / 2 ^ 52) (float_div plain_lib 175 100) (175 / 100)
   \<and> float_pow plain_lib (float_div plain_lib 175 100) 2 = Some (49 / 16)
   \<and> close_to (1 / 2 ^ 52) (49 / 16) ((float_div plain_lib 175 100) ^ 2)
   \<and> close_to (1 / 2 ^ 52) (float_div plain_lib 70 (49 / 16)) (70 / (49 / 16))"
  unfolding plain_lib_exact_operands by (simp add: close_to_def power2_eq_square)

theorem calculate_bmi_formula_witness:
  "(0::rat) \<le> 1 / 2 ^ 52 \<and> (1::rat) / 2 ^ 52 \<le> 1 / 16 \<and> (175::rat) \<noteq> 0
   \<and> close_to (1 / 2 ^ 52) (float_div plain_lib 175 100) (175 / 100)
   \<and> float_pow plain_lib (float_div plain_lib 175 100) 2 = Some (49 / 16)
   \<and> close_to (1 / 2 ^ 52) (49 / 16) ((float_div plain_lib 175 100) ^ 2)
   \<and> close_to (1 / 2 ^ 52) (float_div plain_lib 70 (49 / 16)) (70 / (49 / 16))
   \<and> (\<exists>b. calculate_bmi plain_lib 70 175 = Inr b
         \<and> close_to (5 * (1 / 2 ^ 52)) b (70 / (175 / 100) ^ 2)
         \<and> \<bar>b - 2286 / 100\<bar> < 5 / 1000)"
proof -
  note acc = plain_lib_accurate_70_175
  have u: "(0::rat) \<le> 1 / 2 ^ 52 \<and> (1::rat) / 2 ^ 52 \<le> 1 / 16 \<and> (175::rat) \<noteq> 0"
    by simp
  note t = calculate_bmi_formula [of plain_lib 70 175 0 KeyError "1 / 2 ^ 52" "49 / 16" "49 / 16"]
  note t3 = t [THEN conjunct2, THEN conjunct2, THEN conjunct1]
  note t4 = t [THEN conjunct2, THEN conjunct2, THEN conjunct2, THEN conjunct1]
  from t3 u acc obtain b where b: "calculate_bmi plain_lib 70 175 = Inr b"
      "close_to (5 * (1 / 2 ^ 52)) b (70 / (175 / 100) ^ 2)"
    by blast
  from t4 acc obtain b' where b': "calculate_bmi plain_lib 70 175 = Inr b'"
      "\<bar>b' - 2286 / 100\<bar> < 5 / 1000"
    by blast
  from b(1) b'(1) have "b' = b" by simp
  with b b' have "\<exists>b. calculate_bmi plain_lib 70 175 = Inr b
         \<and> close_to (5 * (1 / 2 ^ 52)) b (70 / (175 / 100) ^ 2)
         \<and> \<bar>b - 2286 / 100\<bar> < 5 / 1000"
    by blast
  with u acc show ?thesis by blast
qed

text \<open>
  The function does not return at every height: at height 0 the division raises
  ZeroDivisionError; at \<open>2 ^ 600\<close> the square overflows and the power raises
  OverflowError; at \<open>2 ^ - 600\<close> the square underflows to zero and the division raises
  ZeroDivisionError.
\<close>

theorem calculate_bmi_raises_counterexample:
  "calculate_bmi plain_lib 70 0 = Inl ZeroDivisionError
   \<and> calculate_bmi plain_lib 70 (2 ^ 600) = Inl OverflowError
   \<and> calculate_bmi plain_lib 70 (1 / 2 ^ 600) = Inl ZeroDivisionError"
proof -
  have e: "(2::rat) ^ 600 = 4149515568880992958512407863691161151012446232242436899995657329690652811412908146399707048947103794288197886611300789182395151075411775307886874834113963687061181803401509523685376"
    by simp
  have "calculate_bmi plain_lib 70 0 = Inl ZeroDivisionError"
    by code_simp
  moreover have "calculate_bmi plain_lib 70 4149515568880992958512407863691161151012446232242436899995657329690652811412908146399707048947103794288197886611300789182395151075411775307886874834113963687061181803401509523685376 = Inl OverflowError"
    by code_simp
  moreover have "calculate_bmi plain_lib 70 (1 / 4149515568880992958512407863691161151012446232242436899995657329690652811412908146399707048947103794288197886611300789182395151075411775307886874834113963687061181803401509523685376) = Inl ZeroDivisionError"
    by code_simp
  ultimately show ?thesis
    by (simp only: e simp_thms)
qed

section \<open>The parser\<close>

lemma strip_Nil [simp]: "strip [] = []"
  by (simp add: strip_def)

lemma collect_weights_eq:
  "list_all (\<lambda>i. r (weight_key i) \<noteq> None) ks \<Longrightarrow>
   collect_weights L r ks acc = Inr (acc @ List.map_filter (cell_value L r) ks)"
proof (induction ks arbitrary: acc)
  case Nil
  then show ?case by simp
next
  case (Cons k ks)
  then show ?case
    by (auto simp: cell_value_def split: option.splits)
qed

lemma collect_weights_valid:
  "has_weight_keys r \<Longrightarrow> collect_weights L r [Suc 0..<5] [] = Inr (valid_cells L r)"
  by (simp add: has_weight_keys_def valid_cells_def collect_weights_eq)

lemma read_rows_step_measured:
  assumes "row_ok L r" "valid_cells L r \<noteq> []"
  shows "read_rows L (r # rs) ds ws =
         read_rows L rs (ds @ [the (row_date L r)]) (ws @ [arithmetic_mean (valid_cells L r)])"
  using assms
  by (auto simp: row_ok_def row_date_def collect_weights_valid arithmetic_mean_def
           split: option.splits)

lemma read_rows_step_unmeasured:
  assumes "r ''Date'' \<noteq> None" "has_weight_keys r" "valid_cells L r = []"
  shows "read_rows L (r # rs) ds ws = read_rows L rs ds ws"
  using assms by (auto simp: collect_weights_valid split: option.splits)

lemma read_rows_ok:
  "list_all (row_ok L) rows \<Longrightarrow>
   read_rows L rows ds ws =
     Inr (ds @ map (\<lambda>r. the (row_date L r)) (measured_rows L rows),
          ws @ map (\<lambda>r. arithmetic_mean (valid_cells L r)) (measured_rows L rows))"
proof (induction rows arbitrary: ds ws)
  case Nil
  then show ?case by (simp add: measured_rows_def)
next
  case (Cons r rows)
  from Cons.prems have ok: "row_ok L r" and rest: "list_all (row_ok L) rows" by simp_all
  show ?case
  proof (cases "valid_cells L r = []")
    case True
    with ok have "read_rows L (r # rows) ds ws = read_rows L rows ds ws"
      by (intro read_rows_step_unmeasured) (simp_all add: row_ok_def)
    with True Cons.IH [OF rest] show ?thesis by (simp add: measured_rows_def)
  next
    case False
    with ok Cons.IH [OF rest] show ?thesis
      by (simp add: read_rows_step_measured measured_rows_def del: read_rows.simps)
  qed
qed

lemma read_rows_append:
  "read_rows L (xs @ ys) ds ws =
     (case read_rows L xs ds ws of Inl e \<Rightarrow> Inl e | Inr (ds', ws') \<Rightarrow> read_rows L ys ds' ws')"
  by (induction xs arbitrary: ds ws) (auto split: option.splits sum.splits)

lemma read_rows_lengths:
  "read_rows L rows ds ws = Inr (ds', ws') \<Longrightarrow> length ds = length ws \<Longrightarrow> length ds' = length ws'"
proof (induction rows arbitrary: ds ws)
  case Nil
  then show ?case by simp
next
  case (Cons r rows)
  then show ?case
    by (auto split: option.splits sum.splits if_splits simp: Let_def)
qed

lemma collect_weights_ignores:
  assumes "r (weight_key i) = Some (Some s)" "float_of L s = None"
  shows "collect_weights L r ks acc = collect_weights L (r(weight_key i \<mapsto> Some [])) ks acc"
  using assms
  by (induction ks arbitrary: acc) (auto split: option.splits)

lemma weight_key_not_Date: "weight_key i \<noteq> ''Date''"
  by (simp add: weight_key_def)

lemma read_rows_cong_row:
  assumes "r' ''Date'' = r ''Date''"
    and "collect_weights L r' [1..<5] [] = collect_weights L r [1..<5] []"
  shows "read_rows L (r' # rs) ds ws = read_rows L (r # rs) ds ws"
  by (simp only: read_rows.simps assms)

lemma no_numeric_cell_keys:
  "list_all (\<lambda>i. case r (weight_key i) of None \<Rightarrow> False | Some c \<Rightarrow> empty_or_non_numeric L c) ks
   \<Longrightarrow> list_all (\<lambda>i. r (weight_key i) \<noteq> None) ks \<and> List.map_filter (cell_value L r) ks = []"
  by (induction ks)
     (auto simp: cell_value_def empty_or_non_numeric_def split: option.splits)

lemma no_numeric_cell_valid:
  "no_numeric_cell L r \<Longrightarrow> has_weight_keys r \<and> valid_cells L r = []"
  unfolding no_numeric_cell_def has_weight_keys_def valid_cells_def
  by (rule no_numeric_cell_keys)

lemma collect_weights_Inr_keys:
  "collect_weights L r ks acc = Inr x \<Longrightarrow> list_all (\<lambda>i. r (weight_key i) \<noteq> None) ks"
  by (induction ks arbitrary: acc) (auto split: option.splits if_splits)

lemma read_rows_Inr_ok:
  "read_rows L rows ds ws = Inr res \<Longrightarrow> list_all (row_ok L) rows"
proof (induction rows arbitrary: ds ws)
  case Nil
  then show ?case by simp
next
  case (Cons r rows)
  from Cons.prems obtain c where date: "r ''Date'' = Some c"
    by (auto split: option.splits)
  from Cons.prems date obtain weights where cw: "collect_weights L r [1..<5] [] = Inr weights"
    by (simp del: One_nat_def split: sum.splits)
  then have keys: "has_weight_keys r"
    unfolding has_weight_keys_def by (rule collect_weights_Inr_keys)
  then have valid: "weights = valid_cells L r"
    using cw collect_weights_valid [of r L] by simp
  show ?case
  proof (cases "weights = []")
    case True
    with Cons.prems date cw have "read_rows L rows ds ws = Inr res"
      by (simp del: One_nat_def)
    with Cons.IH True date keys valid show ?thesis
      by (simp add: row_ok_def)
  next
    case False
    with Cons.prems date cw obtain s d where s: "c = Some s" "strptime L s = Some d"
      by (auto simp del: One_nat_def simp: Let_def split: option.splits)
    with Cons.prems date cw False
    have "read_rows L rows (ds @ [d]) (ws @ [sum_list weights / of_nat (length weights)]) = Inr res"
      by (simp del: One_nat_def add: Let_def)
    with Cons.IH date keys s show ?thesis
      by (simp add: row_ok_def row_date_def)
  qed
qed

lemma read_weight_data_Inr_iff:
  "read_weight_data L (Some f) = Inr res \<longleftrightarrow>
     list_all (row_ok L) (dict_reader f)
     \<and> res = (map (\<lambda>r. the (row_date L r)) (measured_rows L (dict_reader f)),
              map (\<lambda>r. arithmetic_mean (valid_cells L r)) (measured_rows L (dict_reader f)))"
  using read_rows_Inr_ok [of L "dict_reader f" "[]" "[]" res]
        read_rows_ok [of L "dict_reader f" "[]" "[]"]
  by (auto simp: read_weight_data_def)

text \<open>
  C1. The parser returns exactly on the tables whose rows have the five columns and a
  readable date where they have a measurement, and what it returns is then, for each
  row with at least one valid numeric cell and in file order, the date of the row and
  the arithmetic mean of its valid numeric cells. A row with the cells 70, empty, 71,
  empty yields the daily average 70.5.
\<close>

theorem read_weight_data_daily_averages:
  "(read_weight_data L (Some f) = Inr (dates, daily_weights) \<longleftrightarrow>
      list_all (row_ok L) (dict_reader f)
      \<and> dates = map (\<lambda>r. the (row_date L r)) (measured_rows L (dict_reader f))
      \<and> daily_weights =
          map (\<lambda>r. arithmetic_mean (valid_cells L r)) (measured_rows L (dict_reader f)))
   \<and> (float_of L ''70'' = Some 70 \<and> float_of L ''71'' = Some 71 \<and> strptime L date_str = Some d \<longrightarrow>
        read_weight_data L (Some [csv_header, [date_str, ''70'', [], ''71'', []]])
          = Inr ([d], [141 / 2]))"
proof (intro conjI impI)
  show "read_weight_data L (Some f) = Inr (dates, daily_weights) \<longleftrightarrow>
      list_all (row_ok L) (dict_reader f)
      \<and> dates = map (\<lambda>r. the (row_date L r)) (measured_rows L (dict_reader f))
      \<and> daily_weights =
          map (\<lambda>r. arithmetic_mean (valid_cells L r)) (measured_rows L (dict_reader f))"
    by (simp add: read_weight_data_Inr_iff)
next
  assume "float_of L ''70'' = Some 70 \<and> float_of L ''71'' = Some 71 \<and> strptime L date_str = Some d"
  then show "read_weight_data L (Some [csv_header, [date_str, ''70'', [], ''71'', []]])
          = Inr ([d], [141 / 2])"
    by (simp add: read_weight_data_def dict_reader_def dict_row_def csv_header_def
                  weight_key_def str_nat.simps digit_char_def upt_rec strip_def is_space_def)
qed

lemma example_rows_ok: "list_all (row_ok plain_lib) (dict_reader example_csv)"
  by code_simp

lemma example_result:
  "read_weight_data plain_lib (Some example_csv) =
     Inr ([\<lparr>year = 2025, month = 7, day = 1\<rparr>, \<lparr>year = 2025, month = 7, day = 3\<rparr>,
           \<lparr>year = 2025, month = 7, day = 4\<rparr>], [141 / 2, 71, 69])"
  by code_simp

theorem read_weight_data_daily_averages_witness:
  "list_all (row_ok plain_lib) (dict_reader example_csv)
   \<and> read_weight_data plain_lib (Some example_csv) =
       Inr ([\<lparr>year = 2025, month = 7, day = 1\<rparr>, \<lparr>year = 2025, month = 7, day = 3\<rparr>,
             \<lparr>year = 2025, month = 7, day = 4\<rparr>], [141 / 2, 71, 69])
   \<and> [141 / 2, 71, 69] =
        map (\<lambda>r. arithmetic_mean (valid_cells plain_lib r))
          (measured_rows plain_lib (dict_reader example_csv))
   \<and> float_of plain_lib ''70'' = Some 70 \<and> float_of plain_lib ''71'' = Some 71
   \<and> strptime plain_lib ''2025.07.01'' = Some \<lparr>year = 2025, month = 7, day = 1\<rparr>
   \<and> read_weight_data plain_lib (Some [csv_header, [''2025.07.01'', ''70'', [], ''71'', []]])
        = Inr ([\<lparr>year = 2025, month = 7, day = 1\<rparr>], [141 / 2])"
proof -
  have p: "float_of plain_lib ''70'' = Some 70 \<and> float_of plain_lib ''71'' = Some 71
     \<and> strptime plain_lib ''2025.07.01'' = Some \<lparr>year = 2025, month = 7, day = 1\<rparr>"
    by code_simp
  show ?thesis
    using read_weight_data_daily_averages
            [of plain_lib example_csv
                "[\<lparr>year = 2025, month = 7, day = 1\<rparr>, \<lparr>year = 2025, month = 7, day = 3\<rparr>,
                  \<lparr>year = 2025, month = 7, day = 4\<rparr>]" "[141 / 2, 71, 69]"
                "''2025.07.01''" "\<lparr>year = 2025, month = 7, day = 1\<rparr>"]
          example_rows_ok example_result p
    by simp
qed

lemma read_rows_middle:
  assumes "\<And>ds ws. read_rows L (r # ys) ds ws = read_rows L (r' # ys) ds ws"
  shows "read_rows L (xs @ r # ys) ds ws = read_rows L (xs @ r' # ys) ds ws"
  using assms by (auto simp add: read_rows_append simp del: read_rows.simps split: sum.splits)

lemma read_rows_drop_middle:
  assumes "\<And>ds ws. read_rows L (r # ys) ds ws = read_rows L ys ds ws"
  shows "read_rows L (xs @ r # ys) ds ws = read_rows L (xs @ ys) ds ws"
  using assms by (auto simp add: read_rows_append simp del: read_rows.simps split: sum.splits)

lemma collect_weights_error:
  "collect_weights L r ks acc = Inl e \<Longrightarrow> e = KeyError"
  by (induction ks arbitrary: acc) (auto split: option.splits if_splits)

text \<open>
  C3. A cell that \<^verbatim>\<open>float\<close> does not accept is passed over without failing the row:
  the loop over the cells never raises ValueError, it collects the valid numeric cells
  of a row that has the four columns, and the parser returns what it returns when the
  cell is empty. A row whose four cells are all empty or non-numeric contributes no
  entry: the parser returns what it returns on the table without this row.
\<close>

theorem non_numeric_cells_ignored:
  "collect_weights L r ks weights \<noteq> Inl ValueError
   \<and> (has_weight_keys r \<longrightarrow> collect_weights L r [1..<5] [] = Inr (valid_cells L r))
   \<and> (r (weight_key i) = Some (Some s) \<and> float_of L s = None \<longrightarrow>
      read_rows L (before @ r # after) dates daily_weights =
      read_rows L (before @ r(weight_key i \<mapsto> Some []) # after) dates daily_weights)
   \<and> (r ''Date'' \<noteq> None \<and> no_numeric_cell L r \<longrightarrow>
        read_rows L (before @ r # after) dates daily_weights =
        read_rows L (before @ after) dates daily_weights)"
proof (intro conjI impI)
  show "collect_weights L r ks weights \<noteq> Inl ValueError"
    using collect_weights_error [of L r ks weights ValueError] by auto
next
  assume "has_weight_keys r"
  then show "collect_weights L r [1..<5] [] = Inr (valid_cells L r)"
    using collect_weights_valid [of r L] by simp
next
  assume a: "r (weight_key i) = Some (Some s) \<and> float_of L s = None"
  have "read_rows L (r # after) ds ws = read_rows L (r(weight_key i \<mapsto> Some []) # after) ds ws"
    for ds ws
  proof (rule read_rows_cong_row [symmetric])
    show "(r(weight_key i \<mapsto> Some [])) ''Date'' = r ''Date''"
      using weight_key_not_Date [of i] by simp
    show "collect_weights L (r(weight_key i \<mapsto> Some [])) [1..<5] [] =
          collect_weights L r [1..<5] []"
      using a collect_weights_ignores [of r i s L] by simp
  qed
  then show "read_rows L (before @ r # after) dates daily_weights =
      read_rows L (before @ r(weight_key i \<mapsto> Some []) # after) dates daily_weights"
    by (rule read_rows_middle)
next
  assume b: "r ''Date'' \<noteq> None \<and> no_numeric_cell L r"
  then have "has_weight_keys r" "valid_cells L r = []"
    using no_numeric_cell_valid by blast+
  with b have "read_rows L (r # after) ds ws = read_rows L after ds ws" for ds ws
    by (intro read_rows_step_unmeasured) simp_all
  then show "read_rows L (before @ r # after) dates daily_weights =
        read_rows L (before @ after) dates daily_weights"
    by (rule read_rows_drop_middle)
qed

theorem non_numeric_cells_ignored_witness:
  "has_weight_keys row3
   \<and> collect_weights plain_lib row3 [1..<5] [] = Inr [71]
   \<and> row3 (weight_key 1) = Some (Some ''abc'') \<and> float_of plain_lib ''abc'' = None
   \<and> read_rows plain_lib ([] @ row3 # []) [] [] =
       Inr ([\<lparr>year = 2025, month = 7, day = 3\<rparr>], [71])
   \<and> read_rows plain_lib ([] @ row3(weight_key 1 \<mapsto> Some []) # []) [] [] =
       Inr ([\<lparr>year = 2025, month = 7, day = 3\<rparr>], [71])
   \<and> row_blank ''Date'' \<noteq> None \<and> no_numeric_cell plain_lib row_blank
   \<and> read_rows plain_lib ([row3] @ row_blank # [row3]) [] [] =
       read_rows plain_lib ([row3] @ [row3]) [] []"
proof -
  have a: "row3 (weight_key 1) = Some (Some ''abc'') \<and> float_of plain_lib ''abc'' = None"
    by code_simp
  have b: "row_blank ''Date'' \<noteq> None \<and> no_numeric_cell plain_lib row_blank"
    by code_simp
  have c: "read_rows plain_lib ([] @ row3 # []) [] [] =
       Inr ([\<lparr>year = 2025, month = 7, day = 3\<rparr>], [71])"
    by code_simp
  have d: "has_weight_keys row3" "valid_cells plain_lib row3 = [71]"
    by code_simp+
  show ?thesis
    using a b c d
      non_numeric_cells_ignored [of plain_lib row3 "[]" "[]" 1 "''abc''" "[]" "[]" "[]" "[]"]
      non_numeric_cells_ignored [of plain_lib row_blank "[]" "[]" 1 "''abc''"
                                    "[row3]" "[row3]" "[]" "[]"]
    by simp
qed

text \<open>
  C10. The two lists \<^verbatim>\<open>read_weight_data\<close> returns have the same length: each row
  appends an element to both lists or to neither. So when the weight list is not empty
  the date list is not empty either, and \<^verbatim>\<open>get_latest_bmi\<close> reads the last date
  without an IndexError. On a table with the five columns and readable dates the
  function does return.
\<close>

theorem read_weight_data_parallel_lists:
  "(read_weight_data L file = Inr (dates, daily_weights) \<longrightarrow>
      length dates = length daily_weights
      \<and> (daily_weights \<noteq> [] \<longrightarrow>
           dates \<noteq> []
           \<and> get_latest_bmi L dates daily_weights height_cm \<noteq> Inl IndexError
           \<and> get_latest_bmi L dates daily_weights height_cm =
               (case calculate_bmi L (last daily_weights) height_cm of
                  Inl e \<Rightarrow> Inl e
                | Inr bmi \<Rightarrow> Inr (Some (last dates), Some bmi))))
   \<and> ((\<exists>e. read_rows L (r # rs) ds ws = Inl e)
        \<or> read_rows L (r # rs) ds ws = read_rows L rs ds ws
        \<or> (\<exists>d a. read_rows L (r # rs) ds ws = read_rows L rs (ds @ [d]) (ws @ [a])))
   \<and> (list_all (row_ok L) (dict_reader f) \<longrightarrow>
        (\<exists>ds' ws'. read_weight_data L (Some f) = Inr (ds', ws') \<and> length ds' = length ws'))"
proof (intro conjI impI)
  assume r: "read_weight_data L file = Inr (dates, daily_weights)"
  then show len: "length dates = length daily_weights"
    by (auto simp: read_weight_data_def split: option.splits dest: read_rows_lengths)
  assume ne: "daily_weights \<noteq> []"
  with len show d: "dates \<noteq> []" by auto
  with ne show eq: "get_latest_bmi L dates daily_weights height_cm =
               (case calculate_bmi L (last daily_weights) height_cm of
                  Inl e \<Rightarrow> Inl e
                | Inr bmi \<Rightarrow> Inr (Some (last dates), Some bmi))"
    by (simp add: get_latest_bmi_def Let_def)
  show "get_latest_bmi L dates daily_weights height_cm \<noteq> Inl IndexError"
    using calculate_bmi_errors [of L "last daily_weights" height_cm IndexError]
    by (auto simp: eq split: sum.splits)
next
  show "(\<exists>e. read_rows L (r # rs) ds ws = Inl e)
        \<or> read_rows L (r # rs) ds ws = read_rows L rs ds ws
        \<or> (\<exists>d a. read_rows L (r # rs) ds ws = read_rows L rs (ds @ [d]) (ws @ [a]))"
    by (auto simp: Let_def split: option.splits sum.splits)
next
  assume "list_all (row_ok L) (dict_reader f)"
  then show "\<exists>ds' ws'. read_weight_data L (Some f) = Inr (ds', ws') \<and> length ds' = length ws'"
    by (simp add: read_weight_data_def read_rows_ok)
qed

theorem read_weight_data_parallel_lists_witness:
  "read_weight_data plain_lib (Some example_csv) =
     Inr ([\<lparr>year = 2025, month = 7, day = 1\<rparr>, \<lparr>year = 2025, month = 7, day = 3\<rparr>,
           \<lparr>year = 2025, month = 7, day = 4\<rparr>], [141 / 2, 71, 69])
   \<and> [141 / 2, 71, 69 :: rat] \<noteq> []
   \<and> get_latest_bmi plain_lib
        [\<lparr>year = 2025, month = 7, day = 1\<rparr>, \<lparr>year = 2025, month = 7, day = 3\<rparr>,
         \<lparr>year = 2025, month = 7, day = 4\<rparr>] [141 / 2, 71, 69] 175 \<noteq> Inl IndexError
   \<and> get_latest_bmi plain_lib
        [\<lparr>year = 2025, month = 7, day = 1\<rparr>, \<lparr>year = 2025, month = 7, day = 3\<rparr>,
         \<lparr>year = 2025, month = 7, day = 4\<rparr>] [141 / 2, 71, 69] 175 =
       Inr (Some \<lparr>year = 2025, month = 7, day = 4\<rparr>,
            Some (3170901778454737 / 140737488355328))
   \<and> list_all (row_ok plain_lib) (dict_reader example_csv)
   \<and> (\<exists>ds' ws'. read_weight_data plain_lib (Some example_csv) = Inr (ds', ws')
         \<and> length ds' = length ws')"
proof -
  have a: "read_weight_data plain_lib (Some example_csv) =
     Inr ([\<lparr>year = 2025, month = 7, day = 1\<rparr>, \<lparr>year = 2025, month = 7, day = 3\<rparr>,
           \<lparr>year = 2025, month = 7, day = 4\<rparr>], [141 / 2, 71, 69])"
    by code_simp
  have b: "list_all (row_ok plain_lib) (dict_reader example_csv)"
    by code_simp
  have c: "calculate_bmi plain_lib 69 175 = Inr (3170901778454737 / 140737488355328)"
    by code_simp
  show ?thesis
    using a b c
      read_weight_data_parallel_lists [of plain_lib "Some example_csv"
        "[\<lparr>year = 2025, month = 7, day = 1\<rparr>, \<lparr>year = 2025, month = 7, day = 3\<rparr>,
           \<lparr>year = 2025, month = 7, day = 4\<rparr>]" "[141 / 2, 71, 69]" 175
        Map.empty "[]" "[]" "[]" example_csv]
    by simp
qed

section \<open>Bootstrap\<close>

lemma date_le_same_month:
  "date_le \<lparr>year = y, month = m, day = n\<rparr> e \<Longrightarrow> d \<le> n \<Longrightarrow>
   date_le \<lparr>year = y, month = m, day = d\<rparr> e"
  by (auto simp: date_le_def)

lemma write_days_month:
  assumes "date_le \<lparr>year = y, month = m, day = days_in_month y m\<rparr> e"
    and "d \<le> days_in_month y m"
  shows "write_days \<lparr>year = y, month = m, day = d\<rparr> e =
         map (\<lambda>i. day_row \<lparr>year = y, month = m, day = i\<rparr>) [d..<days_in_month y m + 1]
         @ write_days (if m < 12 then \<lparr>year = y, month = m + 1, day = 1\<rparr>
                       else \<lparr>year = y + 1, month = 1, day = 1\<rparr>) e"
  using assms(2)
proof (induction "days_in_month y m - d" arbitrary: d)
  case 0
  then have d: "d = days_in_month y m" by simp
  have "write_days \<lparr>year = y, month = m, day = d\<rparr> e =
        day_row \<lparr>year = y, month = m, day = d\<rparr>
        # write_days (next_day \<lparr>year = y, month = m, day = d\<rparr>) e"
    using assms(1) d by (subst write_days.simps) (simp add: day_row_def)
  then show ?case
    using d by (simp add: next_day_def)
next
  case (Suc n)
  then have lt: "d < days_in_month y m" by simp
  then have le: "date_le \<lparr>year = y, month = m, day = d\<rparr> e"
    using assms(1) date_le_same_month by simp
  have "write_days \<lparr>year = y, month = m, day = d\<rparr> e =
        day_row \<lparr>year = y, month = m, day = d\<rparr>
        # write_days \<lparr>year = y, month = m, day = d + 1\<rparr> e"
    using le lt by (subst write_days.simps) (simp add: day_row_def next_day_def)
  moreover have "write_days \<lparr>year = y, month = m, day = d + 1\<rparr> e =
         map (\<lambda>i. day_row \<lparr>year = y, month = m, day = i\<rparr>) [d + 1..<days_in_month y m + 1]
         @ write_days (if m < 12 then \<lparr>year = y, month = m + 1, day = 1\<rparr>
                       else \<lparr>year = y + 1, month = 1, day = 1\<rparr>) e"
    using Suc.hyps(1) [of "d + 1"] Suc.hyps(2) lt by simp
  moreover have "[d..<days_in_month y m + 1] = d # [d + 1..<days_in_month y m + 1]"
    using lt by (simp add: upt_conv_Cons)
  ultimately show ?case by simp
qed

lemma days_in_month_pos: "1 \<le> days_in_month y m"
  by (simp add: days_in_month_def)

lemma write_days_whole_month:
  assumes "date_le \<lparr>year = y, month = m, day = days_in_month y m\<rparr> e"
  shows "write_days \<lparr>year = y, month = m, day = 1\<rparr> e =
         map day_row (month_days y m)
         @ write_days (if m < 12 then \<lparr>year = y, month = m + 1, day = 1\<rparr>
                       else \<lparr>year = y + 1, month = 1, day = 1\<rparr>) e"
  using write_days_month [OF assms days_in_month_pos]
  by (simp add: month_days_def comp_def)

lemma write_days_rest_of_year:
  assumes "date_le \<lparr>year = y, month = 12, day = 31\<rparr> e" and "m \<le> 12"
  shows "write_days \<lparr>year = y, month = m, day = 1\<rparr> e =
         map day_row (concat (map (month_days y) [m..<13]))
         @ write_days \<lparr>year = y + 1, month = 1, day = 1\<rparr> e"
  using assms(2)
proof (induction "12 - m" arbitrary: m)
  case 0
  then have m: "m = 12" by simp
  have "date_le \<lparr>year = y, month = 12, day = days_in_month y 12\<rparr> e"
    using assms(1) by (simp add: days_in_month_def)
  from write_days_whole_month [OF this] show ?case
    using m by simp
next
  case (Suc n)
  then have lt: "m < 12" by simp
  have "date_le \<lparr>year = y, month = m, day = days_in_month y m\<rparr> e"
    using assms(1) lt by (auto simp: date_le_def)
  from write_days_whole_month [OF this]
  have "write_days \<lparr>year = y, month = m, day = 1\<rparr> e =
         map day_row (month_days y m) @ write_days \<lparr>year = y, month = m + 1, day = 1\<rparr> e"
    using lt by simp
  moreover have "write_days \<lparr>year = y, month = m + 1, day = 1\<rparr> e =
         map day_row (concat (map (month_days y) [m + 1..<13]))
         @ write_days \<lparr>year = y + 1, month = 1, day = 1\<rparr> e"
    using Suc.hyps(1) [of "m + 1"] Suc.hyps(2) lt by simp
  moreover have "[m..<13] = m # [m + 1..<13]"
    using lt by (simp add: upt_conv_Cons)
  ultimately show ?case by simp
qed

lemma write_days_after_end:
  "\<not> date_le c e \<Longrightarrow> write_days c e = []"
  by (subst write_days.simps) simp

lemma write_days_configured:
  "write_days \<lparr>year = 2025, month = 7, day = 1\<rparr> \<lparr>year = 2026, month = 12, day = 31\<rparr> =
   map day_row (concat (map (month_days 2025) [7..<13]) @ concat (map (month_days 2026) [1..<13]))"
proof -
  let ?e = "\<lparr>year = 2026, month = 12, day = 31\<rparr>"
  have a: "write_days \<lparr>year = 2025, month = 7, day = 1\<rparr> ?e =
        map day_row (concat (map (month_days 2025) [7..<13]))
        @ write_days \<lparr>year = 2025 + 1, month = 1, day = 1\<rparr> ?e"
    by (rule write_days_rest_of_year) (simp_all add: date_le_def)
  have b: "write_days \<lparr>year = 2026, month = 1, day = 1\<rparr> ?e =
        map day_row (concat (map (month_days 2026) [1..<13]))
        @ write_days \<lparr>year = 2026 + 1, month = 1, day = 1\<rparr> ?e"
    by (rule write_days_rest_of_year) (simp_all add: date_le_def)
  have c: "write_days \<lparr>year = 2026 + 1, month = 1, day = 1\<rparr> ?e = []"
    by (rule write_days_after_end) (simp add: date_le_def)
  have d: "(2025 :: nat) + 1 = 2026" by simp
  show ?thesis
    unfolding a d b c by simp
qed

lemma set_month_days:
  "set (month_days y m) =
     {d. year d = y \<and> month d = m \<and> 1 \<le> day d \<and> day d \<le> days_in_month y m}"
  by (auto simp: month_days_def image_iff intro!: datetime.equality)

lemma set_days_of_year:
  "set (days_of_year y) = {d. year d = y \<and> valid_date d}"
  by (auto simp: days_of_year_def set_month_days valid_date_def)

lemma set_calendar_days:
  "set (calendar_days a b) = {d. valid_date d \<and> date_le a d \<and> date_le d b}"
  by (auto simp: calendar_days_def set_days_of_year date_le_def)

lemma sorted_wrt_concat_map_upt:
  assumes "\<And>i. sorted_wrt R (f i)"
    and "\<And>i j x y. i < j \<Longrightarrow> x \<in> set (f i) \<Longrightarrow> y \<in> set (f j) \<Longrightarrow> R x y"
  shows "sorted_wrt R (concat (map f [a..<b]))"
proof (induction b)
  case 0
  then show ?case by simp
next
  case (Suc b)
  show ?case
  proof (cases "a \<le> b")
    case True
    with Suc assms show ?thesis
      by (auto simp: sorted_wrt_append)
  next
    case False
    then show ?thesis by simp
  qed
qed

lemma sorted_month_days: "sorted_wrt date_lt (month_days y m)"
proof -
  have "sorted_wrt (\<lambda>i j. date_lt \<lparr>year = y, month = m, day = i\<rparr> \<lparr>year = y, month = m, day = j\<rparr>)
          [1..<days_in_month y m + 1]"
    by (rule sorted_wrt_mono_rel [OF _ sorted_wrt_upt]) (simp add: date_lt_def date_le_def)
  then show ?thesis
    by (simp add: month_days_def sorted_wrt_map)
qed

lemma sorted_days_of_year: "sorted_wrt date_lt (days_of_year y)"
  unfolding days_of_year_def
  by (rule sorted_wrt_concat_map_upt)
     (auto simp: sorted_month_days set_month_days date_lt_def date_le_def)

lemma sorted_calendar_days: "sorted_wrt date_lt (calendar_days a b)"
  unfolding calendar_days_def
  by (intro sorted_wrt_filter sorted_wrt_concat_map_upt)
     (auto simp: sorted_days_of_year set_days_of_year date_lt_def date_le_def)


lemma filter_all: "(\<And>x. x \<in> set xs \<Longrightarrow> P x) \<Longrightarrow> filter P xs = xs"
  by (induction xs) simp_all

lemma filter_none: "(\<And>x. x \<in> set xs \<Longrightarrow> \<not> P x) \<Longrightarrow> filter P xs = []"
  by (induction xs) simp_all

lemma calendar_days_configured:
  "calendar_days \<lparr>year = 2025, month = 7, day = 1\<rparr> \<lparr>year = 2026, month = 12, day = 31\<rparr> =
   concat (map (month_days 2025) [7..<13]) @ concat (map (month_days 2026) [1..<13])"
proof -
  let ?P = "\<lambda>d. date_le \<lparr>year = 2025, month = 7, day = 1\<rparr> d
              \<and> date_le d \<lparr>year = 2026, month = 12, day = 31\<rparr>"
  have years: "[2025..<2026 + 1] = [2025, 2026 :: nat]"
    by (simp add: upt_rec)
  have split: "[1..<13] = [1..<7] @ [7..<13 :: nat]"
    by (simp add: upt_rec)
  have early: "filter ?P (concat (map (month_days 2025) [1..<7])) = []"
    by (rule filter_none) (auto simp: set_month_days date_le_def)
  have late: "filter ?P (concat (map (month_days 2025) [7..<13])) =
              concat (map (month_days 2025) [7..<13])"
    by (rule filter_all) (auto simp: set_month_days date_le_def)
  have second: "filter ?P (concat (map (month_days 2026) [1..<13])) =
              concat (map (month_days 2026) [1..<13])"
    by (rule filter_all) (auto simp: set_month_days date_le_def days_in_month_def)
  have "filter ?P (days_of_year 2025) = concat (map (month_days 2025) [7..<13])"
    unfolding days_of_year_def split using early late by simp
  moreover have "filter ?P (days_of_year 2026) = concat (map (month_days 2026) [1..<13])"
    unfolding days_of_year_def using second by simp
  ultimately show ?thesis
    by (simp add: calendar_days_def years)
qed

lemma length_month_days: "length (month_days y m) = days_in_month y m"
  by (simp add: month_days_def)

lemma months_2025: "[7..<13] = [7, 8, 9, 10, 11, 12 :: nat]"
  by (simp add: upt_rec)

lemma months_2026: "[1..<13] = [1, 2, 3, 4, 5, 6, 7, 8, 9, 10, 11, 12 :: nat]"
  by (simp add: upt_rec)

lemma calendar_days_count:
  "length (calendar_days \<lparr>year = 2025, month = 7, day = 1\<rparr> \<lparr>year = 2026, month = 12, day = 31\<rparr>) = 549"
  unfolding calendar_days_configured months_2025 months_2026
  by (simp add: length_concat length_month_days comp_def
                months_2025 months_2026 days_in_month_def is_leap_def)

lemma calendar_days_first:
  "hd (calendar_days \<lparr>year = 2025, month = 7, day = 1\<rparr> \<lparr>year = 2026, month = 12, day = 31\<rparr>)
     = \<lparr>year = 2025, month = 7, day = 1\<rparr>"
  unfolding calendar_days_configured months_2025 months_2026
  by (simp add: month_days_def days_in_month_def upt_rec)

lemma calendar_days_last:
  "last (calendar_days \<lparr>year = 2025, month = 7, day = 1\<rparr> \<lparr>year = 2026, month = 12, day = 31\<rparr>)
     = \<lparr>year = 2026, month = 12, day = 31\<rparr>"
  unfolding calendar_days_configured months_2025 months_2026
  by (simp add: month_days_def days_in_month_def is_leap_def last_map)

lemma strftime_examples:
  "strftime \<lparr>year = 2025, month = 7, day = 1\<rparr> = ''2025.07.01''"
  "strftime \<lparr>year = 2026, month = 12, day = 31\<rparr> = ''2026.12.31''"
  by (simp_all add: strftime_def pad4_def pad2_def digit_char_def)

lemma initialize_csv_eq:
  "initialize_csv w =
     w\<lparr>weight_data_csv :=
         Some (csv_header
               # map day_row (calendar_days \<lparr>year = 2025, month = 7, day = 1\<rparr>
                                            \<lparr>year = 2026, month = 12, day = 31\<rparr>))\<rparr>"
  unfolding initialize_csv_def Let_def write_days_configured calendar_days_configured csv_header_def
  by (rule refl)

lemma strftime_shape:
  "length (strftime d) = 10 \<and> strftime d ! 4 = CHR ''.'' \<and> strftime d ! 7 = CHR ''.''"
  by (simp add: strftime_def pad4_def pad2_def)

text \<open>
  C6. Bootstrapping writes the header \<^verbatim>\<open>Date,Weight1,Weight2,Weight3,Weight4\<close> and
  then, for each calendar day from 2025.07.01 to 2026.12.31 inclusive, one row made of
  the date and four empty cells. The days are exactly the calendar days of the range,
  each once, in ascending order (549 of them); a date is written as four digits of the
  year, two of the month and two of the day, separated by points.
\<close>

theorem initialize_csv_one_row_per_day:
  "weight_data_csv (initialize_csv w) =
     Some ([''Date'', ''Weight1'', ''Weight2'', ''Weight3'', ''Weight4'']
           # map (\<lambda>d. [strftime d, [], [], [], []])
               (calendar_days \<lparr>year = 2025, month = 7, day = 1\<rparr>
                              \<lparr>year = 2026, month = 12, day = 31\<rparr>))
   \<and> set (calendar_days \<lparr>year = 2025, month = 7, day = 1\<rparr> \<lparr>year = 2026, month = 12, day = 31\<rparr>)
       = {d. valid_date d \<and> date_le \<lparr>year = 2025, month = 7, day = 1\<rparr> d
              \<and> date_le d \<lparr>year = 2026, month = 12, day = 31\<rparr>}
   \<and> sorted_wrt date_lt
        (calendar_days \<lparr>year = 2025, month = 7, day = 1\<rparr> \<lparr>year = 2026, month = 12, day = 31\<rparr>)
   \<and> length (calendar_days \<lparr>year = 2025, month = 7, day = 1\<rparr>
                             \<lparr>year = 2026, month = 12, day = 31\<rparr>) = 549
   \<and> hd (calendar_days \<lparr>year = 2025, month = 7, day = 1\<rparr> \<lparr>year = 2026, month = 12, day = 31\<rparr>)
       = \<lparr>year = 2025, month = 7, day = 1\<rparr>
   \<and> last (calendar_days \<lparr>year = 2025, month = 7, day = 1\<rparr> \<lparr>year = 2026, month = 12, day = 31\<rparr>)
       = \<lparr>year = 2026, month = 12, day = 31\<rparr>
   \<and> strftime \<lparr>year = 2025, month = 7, day = 1\<rparr> = ''2025.07.01''
   \<and> strftime \<lparr>year = 2026, month = 12, day = 31\<rparr> = ''2026.12.31''
   \<and> length (strftime d) = 10 \<and> strftime d ! 4 = CHR ''.'' \<and> strftime d ! 7 = CHR ''.''
   \<and> weight_analysis_png (initialize_csv w) = weight_analysis_png w
   \<and> shown (initialize_csv w) = shown w
   \<and> stdout (initialize_csv w) = stdout w"
proof -
  have rows: "map day_row ds = map (\<lambda>d. [strftime d, [], [], [], []]) ds" for ds
    by (simp add: day_row_def)
  have "weight_data_csv (initialize_csv w) =
     Some ([''Date'', ''Weight1'', ''Weight2'', ''Weight3'', ''Weight4'']
           # map (\<lambda>d. [strftime d, [], [], [], []])
               (calendar_days \<lparr>year = 2025, month = 7, day = 1\<rparr>
                              \<lparr>year = 2026, month = 12, day = 31\<rparr>))"
    unfolding initialize_csv_eq rows csv_header_def by simp
  moreover have "weight_analysis_png (initialize_csv w) = weight_analysis_png w"
    "shown (initialize_csv w) = shown w" "stdout (initialize_csv w) = stdout w"
    unfolding initialize_csv_eq by simp_all
  ultimately show ?thesis
    using set_calendar_days sorted_calendar_days calendar_days_count calendar_days_first
      calendar_days_last strftime_examples strftime_shape [of d]
    by blast
qed

section \<open>Plots and the script\<close>

lemma print_fields [simp]:
  "weight_data_csv (print w s) = weight_data_csv w"
  "weight_analysis_png (print w s) = weight_analysis_png w"
  "shown (print w s) = shown w"
  "stdout (print w s) = stdout w @ [s]"
  by (simp_all add: print_def)

lemma create_plots_frame:
  "weight_data_csv (fst (create_plots L dates weights changes w)) = weight_data_csv w"
  "stdout (fst (create_plots L dates weights changes w)) = stdout w"
  by (simp_all add: create_plots_def split: sum.splits)

lemma create_plots_cases:
  "create_plots L dates weights changes w = (w', r) \<Longrightarrow>
   weight_data_csv w' = weight_data_csv w \<and> stdout w' = stdout w"
  using create_plots_frame [of L dates weights changes w] by simp

text \<open>
  C9. In the figure \<^verbatim>\<open>create_plots\<close> saves, the second chart holds the smoothed curve
  (the spline fitted to the ordinal dates and the weights, drawn over the raw data)
  exactly when there are at least 4 points, and the fallback text, with no curve,
  exactly when there are fewer. With fewer than 4 points the function returns; with at
  least 4 it returns when the fit succeeds, and raises what the fit raises.
\<close>

theorem create_plots_smoothing_threshold:
  "(create_plots L dates weights weight_changes w = (w', None) \<longrightarrow>
      (\<exists>fig. weight_analysis_png w' = Some fig
         \<and> (length weights < 4 \<longrightarrow> ax2 fig = smoothing_fallback)
         \<and> (4 \<le> length weights \<longrightarrow>
              (\<exists>smoothed.
                 spline L (map toordinal dates) weights (of_nat (length weights) * (8 / 10))
                   = Inr smoothed
                 \<and> artists (ax2 fig) =
                     [Line2D dates smoothed ''r-'' (Some ''Smoothed Data''),
                      Line2D dates weights ''b-'' (Some ''Raw Data'')]))
         \<and> (list_ex is_spline_line (artists (ax2 fig)) \<longleftrightarrow> 4 \<le> length weights)
         \<and> (AxText ''Not enough data for smoothing'' \<in> set (artists (ax2 fig))
              \<longleftrightarrow> length weights < 4)))
   \<and> (length weights < 4 \<and> length dates = length weights \<longrightarrow>
        snd (create_plots L dates weights (calculate_weight_changes weights) w) = None)
   \<and> (4 \<le> length weights \<and> length dates = length weights
        \<and> spline L (map toordinal dates) weights (of_nat (length weights) * (8 / 10)) = Inr sm
        \<and> length sm = length weights \<longrightarrow>
        snd (create_plots L dates weights (calculate_weight_changes weights) w) = None)
   \<and> (4 \<le> length weights \<and> length dates = length weights
        \<and> spline L (map toordinal dates) weights (of_nat (length weights) * (8 / 10)) = Inl e \<longrightarrow>
        create_plots L dates weights weight_changes w = (w, Some e))"
proof (intro conjI impI)
  assume "create_plots L dates weights weight_changes w = (w', None)"
  then show "\<exists>fig. weight_analysis_png w' = Some fig
         \<and> (length weights < 4 \<longrightarrow> ax2 fig = smoothing_fallback)
         \<and> (4 \<le> length weights \<longrightarrow>
              (\<exists>smoothed.
                 spline L (map toordinal dates) weights (of_nat (length weights) * (8 / 10))
                   = Inr smoothed
                 \<and> artists (ax2 fig) =
                     [Line2D dates smoothed ''r-'' (Some ''Smoothed Data''),
                      Line2D dates weights ''b-'' (Some ''Raw Data'')]))
         \<and> (list_ex is_spline_line (artists (ax2 fig)) \<longleftrightarrow> 4 \<le> length weights)
         \<and> (AxText ''Not enough data for smoothing'' \<in> set (artists (ax2 fig))
              \<longleftrightarrow> length weights < 4)"
    by (cases "3 < length weights")
       (auto simp: create_plots_def bind_err_def ax_plot_def empty_axes_def
                   smoothing_fallback_def Let_def
             split: sum.splits if_splits)
next
  assume "length weights < 4 \<and> length dates = length weights"
  then show "snd (create_plots L dates weights (calculate_weight_changes weights) w) = None"
    by (auto simp: create_plots_def bind_err_def ax_plot_def Let_def
                   calculate_weight_changes_eq first_differences_length
             split: sum.splits)
next
  assume "4 \<le> length weights \<and> length dates = length weights
        \<and> spline L (map toordinal dates) weights (of_nat (length weights) * (8 / 10)) = Inr sm
        \<and> length sm = length weights"
  then show "snd (create_plots L dates weights (calculate_weight_changes weights) w) = None"
    by (auto simp: create_plots_def bind_err_def ax_plot_def Let_def
                   calculate_weight_changes_eq first_differences_length
             split: sum.splits)
next
  assume "4 \<le> length weights \<and> length dates = length weights
        \<and> spline L (map toordinal dates) weights (of_nat (length weights) * (8 / 10)) = Inl e"
  then show "create_plots L dates weights weight_changes w = (w, Some e)"
    by (auto simp: create_plots_def bind_err_def ax_plot_def Let_def split: sum.splits)
qed

lemma main_bootstrap:
  "weight_data_csv w = None \<Longrightarrow>
   main L w =
     (print (print (initialize_csv w) ''CSV file created: weight_data.csv'')
        ''Please fill in the weight data and run the program again.'', None)"
  by (simp add: main_def Let_def)

lemma main_no_data:
  "weight_data_csv w = Some f \<Longrightarrow> read_weight_data L (Some f) = Inr (dates, []) \<Longrightarrow>
   main L w = (print w ''No weight data found in the CSV file.'', None)"
  by (simp add: main_def Let_def)

lemma keeps_refl: "weight_data_csv w = Some f \<Longrightarrow> keeps f w w"
  by (simp add: keeps_def)

lemma keeps_print:
  "keeps f w w' \<Longrightarrow> s \<notin> set bootstrap_messages \<Longrightarrow> keeps f w (print w' s)"
  by (auto simp: keeps_def)

lemma keeps_create_plots:
  "keeps f w w' \<Longrightarrow> create_plots L dates weights changes w' = (w'', r) \<Longrightarrow> keeps f w w''"
  by (auto simp: keeps_def dest: create_plots_cases)

lemma main_existing:
  assumes "weight_data_csv w = Some f"
  shows "keeps f w (fst (main L w))"
  using assms
  unfolding main_def Let_def
  by (auto split: sum.splits prod.splits option.splits
           intro!: keeps_print keeps_refl
           elim: keeps_create_plots [rotated]
           simp: bootstrap_messages_def simp del: of_nat_numeral)

theorem create_plots_smoothing_threshold_witness:
  "4 \<le> length example_weights
   \<and> snd (create_plots plain_lib example_dates example_weights
            (calculate_weight_changes example_weights) fresh_world) = None
   \<and> list_ex is_spline_line
        (artists (ax2 (the (weight_analysis_png
           (fst (create_plots plain_lib example_dates example_weights
                  (calculate_weight_changes example_weights) fresh_world))))))
   \<and> length (take 3 example_weights) < 4
   \<and> snd (create_plots plain_lib (take 3 example_dates) (take 3 example_weights)
            (calculate_weight_changes (take 3 example_weights)) fresh_world) = None
   \<and> ax2 (the (weight_analysis_png
           (fst (create_plots plain_lib (take 3 example_dates) (take 3 example_weights)
                  (calculate_weight_changes (take 3 example_weights)) fresh_world))))
       = smoothing_fallback"
proof -
  let ?p4 = "create_plots plain_lib example_dates example_weights
               (calculate_weight_changes example_weights) fresh_world"
  let ?p3 = "create_plots plain_lib (take 3 example_dates) (take 3 example_weights)
               (calculate_weight_changes (take 3 example_weights)) fresh_world"
  have len: "length example_weights = 4" "length example_dates = 4"
    by (simp_all add: example_weights_def example_dates_def)
  have sp: "spline plain_lib (map toordinal example_dates) example_weights
              (of_nat (length example_weights) * (8 / 10)) = Inr example_weights"
    by (simp add: plain_lib_def identity_spline_def len)
  have s4: "snd ?p4 = None"
    using create_plots_smoothing_threshold
            [of plain_lib example_dates example_weights _ fresh_world _ example_weights]
          len sp
    by simp
  have s3: "snd ?p3 = None"
    using create_plots_smoothing_threshold
            [of plain_lib "take 3 example_dates" "take 3 example_weights" _ fresh_world]
          len
    by simp
  have e4: "?p4 = (fst ?p4, None)" using s4 by (simp add: prod_eq_iff)
  have e3: "?p3 = (fst ?p3, None)" using s3 by (simp add: prod_eq_iff)
  have "list_ex is_spline_line (artists (ax2 (the (weight_analysis_png (fst ?p4)))))"
    using create_plots_smoothing_threshold
            [of plain_lib example_dates example_weights
                "calculate_weight_changes example_weights" fresh_world "fst ?p4"
                example_weights ValueError]
          e4 len
    by auto
  moreover have "ax2 (the (weight_analysis_png (fst ?p3))) = smoothing_fallback"
    using create_plots_smoothing_threshold
            [of plain_lib "take 3 example_dates" "take 3 example_weights"
                "calculate_weight_changes (take 3 example_weights)" fresh_world "fst ?p3"
                example_weights ValueError]
          e3 len
    by auto
  ultimately show ?thesis
    using s4 s3 len by simp
qed

lemma bootstrap_row_unmeasured:
  "read_rows L (dict_row csv_header (day_row d) # rs) ds ws = read_rows L rs ds ws"
proof (rule read_rows_step_unmeasured)
  show "dict_row csv_header (day_row d) ''Date'' \<noteq> None"
    by (simp add: dict_row_def csv_header_def day_row_def)
  show "has_weight_keys (dict_row csv_header (day_row d))"
    by (simp add: has_weight_keys_def dict_row_def csv_header_def day_row_def
                  weight_key_def str_nat.simps digit_char_def upt_rec)
  show "valid_cells L (dict_row csv_header (day_row d)) = []"
    by (simp add: valid_cells_def cell_value_def dict_row_def csv_header_def day_row_def
                  weight_key_def str_nat.simps digit_char_def upt_rec)
qed

lemma read_bootstrap_rows:
  "read_rows L (map (\<lambda>d. dict_row csv_header (day_row d)) days) ds ws = Inr (ds, ws)"
  by (induction days) (simp_all add: bootstrap_row_unmeasured del: read_rows.simps(2))

lemma read_bootstrap_file:
  "read_weight_data L (Some (csv_header # map day_row days)) = Inr ([], [])"
proof -
  have "filter (\<lambda>r. r \<noteq> []) (map day_row days) = map day_row days"
    by (induction days) (simp_all add: day_row_def)
  then show ?thesis
    by (simp add: read_weight_data_def dict_reader_def read_bootstrap_rows comp_def)
qed

text \<open>
  C7. When the CSV file does not exist, the program creates it by the bootstrap, prints
  the two instructional lines and returns: no figure is saved or shown and no statistics
  are printed. When the file exists and the parser returns an empty weight series, the
  program prints one line and returns, leaving everything else as it was.
\<close>

theorem main_early_exits:
  "(weight_data_csv w = None \<longrightarrow>
      main L w =
        (print (print (initialize_csv w) ''CSV file created: weight_data.csv'')
           ''Please fill in the weight data and run the program again.'', None)
      \<and> weight_data_csv (fst (main L w)) =
          Some (csv_header
                # map day_row (calendar_days \<lparr>year = 2025, month = 7, day = 1\<rparr>
                                             \<lparr>year = 2026, month = 12, day = 31\<rparr>))
      \<and> stdout (fst (main L w)) =
          stdout w @ [''CSV file created: weight_data.csv'',
                      ''Please fill in the weight data and run the program again.'']
      \<and> weight_analysis_png (fst (main L w)) = weight_analysis_png w
      \<and> shown (fst (main L w)) = shown w)
   \<and> (weight_data_csv w = Some f \<and> read_weight_data L (Some f) = Inr (dates, []) \<longrightarrow>
        main L w = (w\<lparr>stdout := stdout w @ [''No weight data found in the CSV file.'']\<rparr>, None))"
proof (intro conjI impI)
  assume a: "weight_data_csv w = None"
  show "main L w =
        (print (print (initialize_csv w) ''CSV file created: weight_data.csv'')
           ''Please fill in the weight data and run the program again.'', None)"
    by (rule main_bootstrap [OF a])
  then show "weight_data_csv (fst (main L w)) =
          Some (csv_header
                # map day_row (calendar_days \<lparr>year = 2025, month = 7, day = 1\<rparr>
                                             \<lparr>year = 2026, month = 12, day = 31\<rparr>))"
    "stdout (fst (main L w)) =
          stdout w @ [''CSV file created: weight_data.csv'',
                      ''Please fill in the weight data and run the program again.'']"
    "weight_analysis_png (fst (main L w)) = weight_analysis_png w"
    "shown (fst (main L w)) = shown w"
    by (simp_all add: initialize_csv_eq)
next
  assume "weight_data_csv w = Some f \<and> read_weight_data L (Some f) = Inr (dates, [])"
  then show "main L w = (w\<lparr>stdout := stdout w @ [''No weight data found in the CSV file.'']\<rparr>, None)"
    using main_no_data [of w f L dates] by (simp add: print_def)
qed

theorem main_early_exits_witness:
  "weight_data_csv fresh_world = None
   \<and> stdout (fst (main plain_lib fresh_world)) =
       [''CSV file created: weight_data.csv'',
        ''Please fill in the weight data and run the program again.'']
   \<and> weight_analysis_png (fst (main plain_lib fresh_world)) = None
   \<and> weight_data_csv (initialize_csv fresh_world) =
       Some (csv_header
             # map day_row (calendar_days \<lparr>year = 2025, month = 7, day = 1\<rparr>
                                          \<lparr>year = 2026, month = 12, day = 31\<rparr>))
   \<and> read_weight_data plain_lib
        (Some (csv_header
               # map day_row (calendar_days \<lparr>year = 2025, month = 7, day = 1\<rparr>
                                            \<lparr>year = 2026, month = 12, day = 31\<rparr>)))
       = Inr ([], [])
   \<and> main plain_lib (initialize_csv fresh_world) =
       ((initialize_csv fresh_world)
          \<lparr>stdout := stdout (initialize_csv fresh_world)
                      @ [''No weight data found in the CSV file.'']\<rparr>, None)"
proof -
  have a: "weight_data_csv fresh_world = None"
    "weight_analysis_png fresh_world = None" "stdout fresh_world = []"
    by (simp_all add: fresh_world_def)
  have b: "weight_data_csv (initialize_csv fresh_world) =
       Some (csv_header
             # map day_row (calendar_days \<lparr>year = 2025, month = 7, day = 1\<rparr>
                                          \<lparr>year = 2026, month = 12, day = 31\<rparr>))"
    by (simp add: initialize_csv_eq)
  have c: "read_weight_data plain_lib
        (Some (csv_header
               # map day_row (calendar_days \<lparr>year = 2025, month = 7, day = 1\<rparr>
                                            \<lparr>year = 2026, month = 12, day = 31\<rparr>)))
       = Inr ([], [])"
    by (rule read_bootstrap_file)
  have first: "stdout (fst (main plain_lib fresh_world)) =
       [''CSV file created: weight_data.csv'',
        ''Please fill in the weight data and run the program again.'']
     \<and> weight_analysis_png (fst (main plain_lib fresh_world)) = None"
    using main_early_exits [of fresh_world plain_lib] a by (simp add: initialize_csv_eq)
  have second: "main plain_lib (initialize_csv fresh_world) =
       ((initialize_csv fresh_world)
          \<lparr>stdout := stdout (initialize_csv fresh_world)
                      @ [''No weight data found in the CSV file.'']\<rparr>, None)"
    using main_early_exits [of "initialize_csv fresh_world" plain_lib
            "csv_header # map day_row (calendar_days \<lparr>year = 2025, month = 7, day = 1\<rparr>
                                                      \<lparr>year = 2026, month = 12, day = 31\<rparr>)" "[]"]
          b c
    by blast
  show ?thesis
    using a(1) b c first second by blast
qed

text \<open>
  C8. When the CSV file exists, a run leaves its content as it was, whatever the content,
  and prints none of the bootstrap lines: the bootstrap does not run. So a second run
  never changes the file the first run left.
\<close>

theorem main_keeps_existing_csv:
  "(weight_data_csv w = Some f \<longrightarrow>
      weight_data_csv (fst (main L w)) = Some f
      \<and> (\<exists>new. stdout (fst (main L w)) = stdout w @ new
             \<and> set new \<inter> set bootstrap_messages = {}))
   \<and> weight_data_csv (fst (main L (fst (main L w)))) = weight_data_csv (fst (main L w))"
proof -
  have existing: "weight_data_csv (fst (main L v)) = Some g" if "weight_data_csv v = Some g" for v g
    using main_existing [OF that, of L] by (simp add: keeps_def)
  have "weight_data_csv (fst (main L (fst (main L w)))) = weight_data_csv (fst (main L w))"
  proof (cases "weight_data_csv w")
    case None
    then have "weight_data_csv (fst (main L w)) =
        Some (csv_header
              # map day_row (calendar_days \<lparr>year = 2025, month = 7, day = 1\<rparr>
                                           \<lparr>year = 2026, month = 12, day = 31\<rparr>))"
      by (simp add: main_bootstrap initialize_csv_eq)
    then show ?thesis by (simp add: existing)
  next
    case (Some g)
    then show ?thesis by (simp add: existing)
  qed
  then show ?thesis
    using main_existing [of w f L] by (simp add: keeps_def)
qed

theorem main_keeps_existing_csv_witness:
  "weight_data_csv (fresh_world\<lparr>weight_data_csv := Some example_csv\<rparr>) = Some example_csv
   \<and> weight_data_csv (fst (main plain_lib (fresh_world\<lparr>weight_data_csv := Some example_csv\<rparr>)))
       = Some example_csv
   \<and> (\<exists>new. stdout (fst (main plain_lib (fresh_world\<lparr>weight_data_csv := Some example_csv\<rparr>)))
               = stdout (fresh_world\<lparr>weight_data_csv := Some example_csv\<rparr>) @ new
           \<and> set new \<inter> set bootstrap_messages = {})"
  using main_keeps_existing_csv
          [of "fresh_world\<lparr>weight_data_csv := Some example_csv\<rparr>" example_csv plain_lib]
  by simp

end
